theory Spec2Isabelle
  imports Main
begin

section \<open>Data model\<close>

text \<open>
  The development embeds \<^verbatim>\<open>source/common/network/dns_impl.cc\<close> (the c-ares backed
  resolver \<^verbatim>\<open>DnsResolverImpl\<close> with its two self-deleting query classes) and
  \<^verbatim>\<open>source/server/config_validation/dns.cc\<close> (the validation resolver), together with
  the types of the interface header \<^verbatim>\<open>envoy/network/dns.h\<close>. Member names are the
  source's without the trailing underscore (\<^verbatim>\<open>completed_\<close> is \<open>completed\<close>), which is not
  available to Isabelle names.
\<close>

subsection \<open>Constants of the external headers\<close>

text \<open>
  Status codes of \<^verbatim>\<open>ares.h\<close> and address families of \<^verbatim>\<open>sys/socket.h\<close> (Linux values).
  The code only ever compares against them.
\<close>

definition ARES_SUCCESS :: int where "ARES_SUCCESS = 0"
definition ARES_ENOTFOUND :: int where "ARES_ENOTFOUND = 4"
definition ARES_EBADNAME :: int where "ARES_EBADNAME = 8"
definition ARES_EBADRESP :: int where "ARES_EBADRESP = 10"
definition ARES_ECONNREFUSED :: int where "ARES_ECONNREFUSED = 11"
definition ARES_EDESTRUCTION :: int where "ARES_EDESTRUCTION = 16"

definition AF_UNIX :: int where "AF_UNIX = 1"
definition AF_INET :: int where "AF_INET = 2"
definition AF_INET6 :: int where "AF_INET6 = 10"

subsection \<open>Interface types (\<^verbatim>\<open>envoy/network/dns.h\<close>)\<close>

datatype DnsLookupFamily = V4Only | V6Only | Auto

datatype ResolutionStatus = Success | Failure

text \<open>
  An address instance. The payload is the raw \<^verbatim>\<open>sockaddr\<close> the instance was built
  from: the code reads \<^verbatim>\<open>sin_addr\<close> or \<^verbatim>\<open>sin6_addr\<close> out of it through a
  \<^verbatim>\<open>reinterpret_cast\<close>, and which of the two it reads is what the constructor records.
\<close>

datatype Address = Ipv4Instance nat | Ipv6Instance nat

record DnsResponse =
  address :: Address
  ttl :: int

subsection \<open>c-ares answer structures\<close>

record ares_addrinfo_node =
  ai_family :: int
  ai_addr :: nat
  ai_ttl :: int

text \<open>
  \<^verbatim>\<open>ares_addrinfo\<close>: the chain \<^verbatim>\<open>nodes\<close>, \<^verbatim>\<open>ai_next\<close> as a list (\<^verbatim>\<open>nodes == nullptr\<close> is
  the empty list). A null \<^verbatim>\<open>ares_addrinfo*\<close> is \<open>None\<close>.
\<close>

record ares_addrinfo =
  nodes :: "ares_addrinfo_node list"

record ares_srv_reply =
  host :: string
  priority :: nat
  weight :: nat
  port :: nat
  srv_ttl :: int

text \<open>
  The list that \<^verbatim>\<open>onAresSrvStartCallback\<close> calls \<^verbatim>\<open>srv_records\<close> receives both the parsed
  records (\<^verbatim>\<open>SrvDnsResponse(host, port, ttl, weight)\<close>) and, inside the per-target
  callbacks, the resolved instances (\<^verbatim>\<open>SrvInstanceImpl(address with port, priority,
  weight)\<close>); the same list is what reaches the caller.
\<close>

datatype srv_entry =
    SrvDnsResponse string nat int nat
  | SrvInstanceImpl "Address \<times> nat" nat nat

definition getAddressWithPort :: "Address \<Rightarrow> nat \<Rightarrow> Address \<times> nat" where
  "getAddressWithPort a p = (a, p)"

subsection \<open>Observable events\<close>

text \<open>
  Caller callbacks are opaque to the resolver; a callback is identified by a number and
  an invocation is recorded, with the address of the invoking query object and the
  arguments, in a trace. The calls into the c-ares library and the \<^verbatim>\<open>delete this\<close> of a
  query object are recorded in the same trace, so that the order of all of them can be
  stated. The validation resolver has no query objects: its events carry the address 0.
\<close>

datatype event =
    AresInitOptions nat
  | AresDestroy nat
  | AresGetAddrInfo nat string int
  | AresQuery nat string
  | Callback nat nat ResolutionStatus "DnsResponse list"
  | SrvCallback nat nat "srv_entry list"
  | Delete nat

section \<open>The validation resolver (\<^verbatim>\<open>config_validation/dns.cc\<close>)\<close>

text \<open>Both functions return the handle (\<open>None\<close> is \<^verbatim>\<open>nullptr\<close>) and the extended trace.\<close>

definition ValidationDnsResolver_resolve ::
  "string \<Rightarrow> DnsLookupFamily \<Rightarrow> nat \<Rightarrow> event list \<Rightarrow> nat option \<times> event list" where
  "ValidationDnsResolver_resolve name family cb tr =
     (None, tr @ [Callback 0 cb Success []])"

definition ValidationDnsResolver_resolveSrv ::
  "string \<Rightarrow> DnsLookupFamily \<Rightarrow> nat \<Rightarrow> event list \<Rightarrow> nat option \<times> event list" where
  "ValidationDnsResolver_resolveSrv name family cb tr =
     (None, tr @ [SrvCallback 0 cb []])"

section \<open>Address queries: translation of the answer\<close>

text \<open>
  The two values that \<^verbatim>\<open>PendingResolution::onAresGetAddrInfoCallback\<close> computes from the
  library's answer before it decides what to do with them: the local variables
  \<^verbatim>\<open>address_list\<close> and \<^verbatim>\<open>resolution_status\<close>. The list is filled only in the
  \<^verbatim>\<open>status == ARES_SUCCESS\<close> branch; there the conversion is chosen by
  \<^verbatim>\<open>addrinfo->nodes->ai_family\<close>, the family of the first node, and the loop then walks the
  whole chain.
\<close>

definition address_list :: "int \<Rightarrow> ares_addrinfo option \<Rightarrow> DnsResponse list" where
  "address_list status addrinfo =
     (if status = ARES_SUCCESS then
        (case addrinfo of
           None \<Rightarrow> []
         | Some a \<Rightarrow>
             (case nodes a of
                [] \<Rightarrow> []
              | n # _ \<Rightarrow>
                  if ai_family n = AF_INET then
                    map (\<lambda>ai. \<lparr>address = Ipv4Instance (ai_addr ai), ttl = ai_ttl ai\<rparr>) (nodes a)
                  else if ai_family n = AF_INET6 then
                    map (\<lambda>ai. \<lparr>address = Ipv6Instance (ai_addr ai), ttl = ai_ttl ai\<rparr>) (nodes a)
                  else []))
      else [])"

definition resolution_status :: "int \<Rightarrow> ResolutionStatus" where
  "resolution_status status = (if status = ARES_SUCCESS then Success else Failure)"

section \<open>The c-ares resolver (\<^verbatim>\<open>dns_impl.cc\<close>)\<close>

text \<open>
  The timer and the file events (\<^verbatim>\<open>updateAresTimer\<close>, \<^verbatim>\<open>onEventCallback\<close>,
  \<^verbatim>\<open>onAresSocketStateChange\<close>) only decide when the library processes its sockets. They
  have no state of their own in this embedding: the library answering an outstanding
  request, whenever that is, is an action on the state (\<open>ares_answer_getaddrinfo\<close>,
  \<open>ares_answer_query\<close> below).
\<close>

subsection \<open>Query objects and resolver state\<close>

text \<open>
  A \<^verbatim>\<open>ResolveCb\<close> is either a callback of the caller, or the closure that
  \<^verbatim>\<open>onAresSrvStartCallback\<close> passes to \<^verbatim>\<open>resolve\<close> for one SRV target. The closure's
  capture list is \<^verbatim>\<open>[this, total, finished, srv_records, current_reply]\<close>, all by value:
  \<open>SrvSubCb this finished srv_records current_reply\<close> holds its own copies of the counter
  and of the list (\<^verbatim>\<open>total\<close> is declared nowhere and used nowhere in the body).
\<close>

datatype ResolveCb = UserCb nat | SrvSubCb nat nat "srv_entry list" ares_srv_reply

record PendingResolutionBase =
  owned :: bool
  completed :: bool
  cancelled :: bool
  query_channel :: nat
  dns_name :: string

record PendingResolution = PendingResolutionBase +
  fallback_if_failed :: bool
  callback :: ResolveCb

record PendingSrvResolution = PendingResolutionBase +
  srv_callback :: nat
  dns_lookup_family :: DnsLookupFamily

datatype object = Addr PendingResolution | Srv PendingSrvResolution

text \<open>
  Modelled from the spec: the constructors and member initialisers of the two query
  classes are in \<^verbatim>\<open>dns_impl.h\<close>, which is not among the sources. A query object has a
  completion flag and a cancellation flag, is never owned by the caller, and takes the
  fallback only for family Auto (which \<^verbatim>\<open>resolve\<close> sets after construction): a new object is
  not owned, not completed, not cancelled and has no fallback.
\<close>

definition new_PendingResolution :: "ResolveCb \<Rightarrow> nat \<Rightarrow> string \<Rightarrow> PendingResolution" where
  "new_PendingResolution cb c name =
     \<lparr>owned = False, completed = False, cancelled = False, query_channel = c,
      dns_name = name, fallback_if_failed = False, callback = cb\<rparr>"

definition new_PendingSrvResolution ::
  "nat \<Rightarrow> nat \<Rightarrow> string \<Rightarrow> DnsLookupFamily \<Rightarrow> PendingSrvResolution" where
  "new_PendingSrvResolution cb c name family =
     \<lparr>owned = False, completed = False, cancelled = False, query_channel = c,
      dns_name = name, srv_callback = cb, dns_lookup_family = family\<rparr>"

fun completed_of :: "object \<Rightarrow> bool" where
  "completed_of (Addr p) = completed p"
| "completed_of (Srv p) = completed p"

fun cancelled_of :: "object \<Rightarrow> bool" where
  "cancelled_of (Addr p) = cancelled p"
| "cancelled_of (Srv p) = cancelled p"

fun set_owned :: "object \<Rightarrow> object" where
  "set_owned (Addr p) = Addr (p\<lparr>owned := True\<rparr>)"
| "set_owned (Srv p) = Srv (p\<lparr>owned := True\<rparr>)"

fun set_cancelled :: "object \<Rightarrow> object" where
  "set_cancelled (Addr p) = Addr (p\<lparr>cancelled := True\<rparr>)"
| "set_cancelled (Srv p) = Srv (p\<lparr>cancelled := True\<rparr>)"

text \<open>
  A request outstanding in the library: the channel it was issued on and the query object
  registered as its argument. The two constructors are the two callbacks the code
  registers (\<^verbatim>\<open>ares_getaddrinfo\<close> with \<^verbatim>\<open>onAresGetAddrInfoCallback\<close>, \<^verbatim>\<open>ares_query\<close> with
  \<^verbatim>\<open>onAresSrvStartCallback\<close>).
\<close>

datatype request = GetAddrInfoRequest nat nat | QueryRequest nat nat

fun request_channel :: "request \<Rightarrow> nat" where
  "request_channel (GetAddrInfoRequest c this) = c"
| "request_channel (QueryRequest c this) = c"

text \<open>
  The answer buffer of an SRV query is represented by what \<^verbatim>\<open>ares_parse_srv_reply\<close>
  returns on it: the parse status and the chain of replies.
\<close>

type_synonym srv_buf = "int \<times> ares_srv_reply list"

definition ares_parse_srv_reply :: "srv_buf \<Rightarrow> int \<times> ares_srv_reply list" where
  "ares_parse_srv_reply buf = buf"

text \<open>
  The state: the resolver's members \<open>dirty_channel\<close> and \<open>channel\<close> (a channel is
  identified by a number; the query objects' member of the same name is
  \<open>query_channel\<close>), the heap of query objects with its allocation counter, the requests
  outstanding in the library, and the trace. The library may complete a request inside
  \<^verbatim>\<open>ares_getaddrinfo\<close> or \<^verbatim>\<open>ares_query\<close> itself (a lookup that needs no network I/O):
  \<open>ares_getaddrinfo_sync\<close> and \<open>ares_query_sync\<close> give, for a name (and family), the
  answer \<open>(status, timeouts, data)\<close> delivered before the call returns, or \<open>None\<close> when the
  request goes to the network.
\<close>

record state =
  dirty_channel :: bool
  channel :: nat
  heap :: "nat \<Rightarrow> object option"
  next_object :: nat
  requests :: "request list"
  ares_getaddrinfo_sync :: "string \<Rightarrow> int \<Rightarrow> (int \<times> int \<times> ares_addrinfo option) option"
  ares_query_sync :: "string \<Rightarrow> (int \<times> int \<times> srv_buf) option"
  trace :: "event list"

text \<open>\<^verbatim>\<open>delete this\<close>.\<close>

definition delete_this :: "nat \<Rightarrow> state \<Rightarrow> state" where
  "delete_this this w = w\<lparr>heap := (heap w)(this := None), trace := trace w @ [Delete this]\<rparr>"

subsection \<open>SRV queries: delivery\<close>

text \<open>
  \<^verbatim>\<open>PendingSrvResolution::onAresSrvFinishCallback\<close>. Caller callbacks are recorded, not
  run, so the \<^verbatim>\<open>try\<close>/\<^verbatim>\<open>catch\<close> around the invocation has nothing to catch. Where a
  function finds no object of its class at \<open>this\<close> (an access to freed memory in the
  source), the state is returned as it is.
\<close>

definition onAresSrvFinishCallback :: "nat \<Rightarrow> srv_entry list \<Rightarrow> state \<Rightarrow> state" where
  "onAresSrvFinishCallback this srv_records w =
     (case heap w this of
        Some (Srv p) \<Rightarrow>
          let p1 = (if srv_records \<noteq> [] then p\<lparr>completed := True\<rparr> else p);
              w1 = w\<lparr>heap := (heap w)(this \<mapsto> Srv p1)\<rparr>
          in if completed p1 then
               let w2 = (if \<not> cancelled p1
                         then w1\<lparr>trace := trace w1 @ [SrvCallback this (srv_callback p1) srv_records]\<rparr>
                         else w1)
               in if owned p1 then delete_this this w2 else w2
             else w1
      | _ \<Rightarrow> w)"

text \<open>
  Invoking the \<^verbatim>\<open>callback_\<close> of the address query at \<open>q\<close>. The second equation is the body
  of the closure of \<^verbatim>\<open>onAresSrvStartCallback\<close>: it appends one instance per resolved
  address to its copy of \<^verbatim>\<open>srv_records\<close>, increments its copy of \<^verbatim>\<open>finished\<close> and compares the
  two. The closure declares the response as its only parameter; the status is not read.
  It is not declared \<^verbatim>\<open>mutable\<close> although it changes its captures: what it changes are its
  own copies, which no other closure and no later code sees.
\<close>

fun invoke :: "nat \<Rightarrow> ResolveCb \<Rightarrow> ResolutionStatus \<Rightarrow> DnsResponse list \<Rightarrow> state \<Rightarrow> state" where
  "invoke q (UserCb c) status response w = w\<lparr>trace := trace w @ [Callback q c status response]\<rparr>"
| "invoke q (SrvSubCb this finished srv_records current_reply) status response w =
     (let srv_records' = srv_records @
            map (\<lambda>instance. SrvInstanceImpl
                   (getAddressWithPort (address instance) (port current_reply))
                   (priority current_reply) (weight current_reply)) response;
          finished' = finished + 1
      in if finished' = length srv_records' then onAresSrvFinishCallback this srv_records' w
         else w)"

subsection \<open>Address queries: completion and fallback\<close>

text \<open>
  \<^verbatim>\<open>PendingResolution::onAresGetAddrInfoCallback\<close> and \<^verbatim>\<open>PendingResolution::getAddrInfo\<close>.
  They call each other through the library: the callback reissues the request for the
  fallback, and \<^verbatim>\<open>ares_getaddrinfo\<close> may run the callback before it returns. The recursion
  ends because the callback clears \<open>fallback_if_failed\<close> before it reissues.
  \<^verbatim>\<open>ASSERT\<close> is compiled out of release builds and the \<^verbatim>\<open>timeouts\<close> are only logged.
\<close>

definition fallback_pending :: "state \<Rightarrow> nat \<Rightarrow> nat" where
  "fallback_pending w this =
     (case heap w this of Some (Addr p) \<Rightarrow> if fallback_if_failed p then 1 else 0 | _ \<Rightarrow> 0)"

function onAresGetAddrInfoCallback ::
    "nat \<Rightarrow> int \<Rightarrow> int \<Rightarrow> ares_addrinfo option \<Rightarrow> state \<Rightarrow> state"
  and getAddrInfo :: "nat \<Rightarrow> int \<Rightarrow> state \<Rightarrow> state" where
  "onAresGetAddrInfoCallback this status timeouts addrinfo w =
     (case heap w this of
        Some (Addr p) \<Rightarrow>
          if status = ARES_EDESTRUCTION then
            delete_this this
              (if \<not> cancelled p then invoke this (callback p) Failure [] w else w)
          else
            let p1 = (if \<not> fallback_if_failed p then p\<lparr>completed := True\<rparr> else p);
                w1 = (if \<not> fallback_if_failed p \<and> status = ARES_ECONNREFUSED
                      then w\<lparr>dirty_channel := True\<rparr> else w);
                p2 = (if status = ARES_SUCCESS \<and> address_list status addrinfo \<noteq> []
                      then p1\<lparr>completed := True\<rparr> else p1);
                w2 = w1\<lparr>heap := (heap w1)(this \<mapsto> Addr p2)\<rparr>
            in if completed p2 then
                 let w3 = (if \<not> cancelled p2
                           then invoke this (callback p2) (resolution_status status)
                                  (address_list status addrinfo) w2
                           else w2)
                 in if owned p2 then delete_this this w3 else w3
               else if fallback_if_failed p2 then
                 getAddrInfo this AF_INET
                   (w2\<lparr>heap := (heap w2)(this \<mapsto> Addr (p2\<lparr>fallback_if_failed := False\<rparr>))\<rparr>)
               else w2
      | _ \<Rightarrow> w)"
| "getAddrInfo this family w =
     (case heap w this of
        Some (Addr p) \<Rightarrow>
          let w1 = w\<lparr>trace := trace w @ [AresGetAddrInfo (query_channel p) (dns_name p) family]\<rparr>
          in (case ares_getaddrinfo_sync w (dns_name p) family of
                None \<Rightarrow> w1\<lparr>requests := requests w1 @ [GetAddrInfoRequest (query_channel p) this]\<rparr>
              | Some (status, timeouts, addrinfo) \<Rightarrow>
                  onAresGetAddrInfoCallback this status timeouts addrinfo w1)
      | _ \<Rightarrow> w)"
  by pat_completeness auto
termination
  apply (relation "measure (\<lambda>x. case x of
            Inl (this, status, timeouts, addrinfo, w) \<Rightarrow> 2 * fallback_pending w this
          | Inr (this, family, w) \<Rightarrow> 2 * fallback_pending w this + 1)")
    apply (auto simp: fallback_pending_def split: if_splits)
  done

declare onAresGetAddrInfoCallback.simps [simp del]
declare getAddrInfo.simps [simp del]

subsection \<open>The channel\<close>

text \<open>
  \<^verbatim>\<open>ares_destroy\<close> ends every request outstanding on the channel by calling its callback
  with \<^verbatim>\<open>ARES_EDESTRUCTION\<close>, no timeouts and no data. For an SRV request that callback is
  \<^verbatim>\<open>onAresSrvStartCallback\<close>, defined below because it calls \<^verbatim>\<open>resolve\<close>; its first
  branch, the one taken for \<^verbatim>\<open>ARES_EDESTRUCTION\<close>, is stated here on its own.
\<close>

definition onAresSrvStartCallback_destruction :: "nat \<Rightarrow> state \<Rightarrow> state" where
  "onAresSrvStartCallback_destruction this w = delete_this this w"

fun deliver_destruction :: "request \<Rightarrow> state \<Rightarrow> state" where
  "deliver_destruction (GetAddrInfoRequest c this) w =
     onAresGetAddrInfoCallback this ARES_EDESTRUCTION 0 None w"
| "deliver_destruction (QueryRequest c this) w = onAresSrvStartCallback_destruction this w"

definition ares_destroy :: "nat \<Rightarrow> state \<Rightarrow> state" where
  "ares_destroy c w =
     fold deliver_destruction (filter (\<lambda>r. request_channel r = c) (requests w))
       (w\<lparr>requests := filter (\<lambda>r. request_channel r \<noteq> c) (requests w),
          trace := trace w @ [AresDestroy c]\<rparr>)"

text \<open>
  \<^verbatim>\<open>DnsResolverImpl::initializeChannel\<close>: clears the dirty flag and creates a channel. The
  options and the custom resolver list do not influence any function below.
\<close>

definition initializeChannel :: "state \<Rightarrow> state" where
  "initializeChannel w =
     w\<lparr>dirty_channel := False, channel := Suc (channel w),
       trace := trace w @ [AresInitOptions (Suc (channel w))]\<rparr>"

text \<open>The constructor, for a library with the given synchronous behaviour, and the destructor.\<close>

definition DnsResolverImpl ::
  "(string \<Rightarrow> int \<Rightarrow> (int \<times> int \<times> ares_addrinfo option) option) \<Rightarrow>
   (string \<Rightarrow> (int \<times> int \<times> srv_buf) option) \<Rightarrow> state" where
  "DnsResolverImpl ga qs =
     initializeChannel
       \<lparr>dirty_channel = False, channel = 0, heap = (\<lambda>_. None), next_object = 0, requests = [],
        ares_getaddrinfo_sync = ga, ares_query_sync = qs, trace = []\<rparr>"

definition DnsResolverImpl_destructor :: "state \<Rightarrow> state" where
  "DnsResolverImpl_destructor w = ares_destroy (channel w) w"

subsection \<open>The entry points\<close>

text \<open>
  \<^verbatim>\<open>DnsResolverImpl::preparePendingResolution\<close>: the result is the handle, \<open>None\<close> for
  \<^verbatim>\<open>nullptr\<close>. A completed object is freed by the \<^verbatim>\<open>unique_ptr\<close> that still holds it.
\<close>

definition preparePendingResolution :: "nat \<Rightarrow> state \<Rightarrow> nat option \<times> state" where
  "preparePendingResolution pending_resolution w =
     (case heap w pending_resolution of
        None \<Rightarrow> (None, w)
      | Some obj \<Rightarrow>
          if completed_of obj then (None, w\<lparr>heap := (heap w)(pending_resolution := None)\<rparr>)
          else (Some pending_resolution,
                w\<lparr>heap := (heap w)(pending_resolution \<mapsto> set_owned obj)\<rparr>))"

text \<open>\<^verbatim>\<open>DnsResolverImpl::resolve\<close>.\<close>

definition resolve ::
  "string \<Rightarrow> DnsLookupFamily \<Rightarrow> ResolveCb \<Rightarrow> state \<Rightarrow> nat option \<times> state" where
  "resolve name family cb w =
     (let w1 = (if dirty_channel w then initializeChannel (ares_destroy (channel w) w) else w);
          this = next_object w1;
          p = new_PendingResolution cb (channel w1) name;
          pending_resolution = (if family = Auto then p\<lparr>fallback_if_failed := True\<rparr> else p);
          w2 = w1\<lparr>heap := (heap w1)(this \<mapsto> Addr pending_resolution), next_object := Suc this\<rparr>;
          w3 = (if family = V4Only then getAddrInfo this AF_INET w2
                else getAddrInfo this AF_INET6 w2)
      in preparePendingResolution this w3)"

subsection \<open>SRV queries: start and fan-out\<close>

text \<open>
  \<^verbatim>\<open>PendingSrvResolution::onAresSrvStartCallback\<close>. The loop over the replies calls
  \<^verbatim>\<open>resolver_->resolve\<close> for each target with a new closure, whose captured counter is
  \<^verbatim>\<open>finished = 0\<close> and whose captured list is the list of the parsed records; the handles
  are dropped.
\<close>

definition onAresSrvStartCallback ::
  "nat \<Rightarrow> int \<Rightarrow> int \<Rightarrow> srv_buf \<Rightarrow> state \<Rightarrow> state" where
  "onAresSrvStartCallback this status timeouts buf w =
     (if status = ARES_EDESTRUCTION then onAresSrvStartCallback_destruction this w
      else
        (case heap w this of
           Some (Srv p) \<Rightarrow>
             if status = ARES_SUCCESS then
               (case ares_parse_srv_reply buf of
                  (status', srv_reply) \<Rightarrow>
                    if status' = ARES_SUCCESS then
                      let srv_records =
                            map (\<lambda>r. SrvDnsResponse (host r) (port r) (srv_ttl r) (weight r))
                              srv_reply
                      in fold (\<lambda>current_reply w'.
                                 snd (resolve (host current_reply) (dns_lookup_family p)
                                        (SrvSubCb this 0 srv_records current_reply) w'))
                           srv_reply w
                    else onAresSrvFinishCallback this [] w)
             else onAresSrvFinishCallback this [] w
         | _ \<Rightarrow> w))"

text \<open>\<^verbatim>\<open>PendingSrvResolution::getSrvByName\<close> and \<^verbatim>\<open>DnsResolverImpl::resolveSrv\<close>.\<close>

definition getSrvByName :: "nat \<Rightarrow> state \<Rightarrow> state" where
  "getSrvByName this w =
     (case heap w this of
        Some (Srv p) \<Rightarrow>
          let w1 = w\<lparr>trace := trace w @ [AresQuery (query_channel p) (dns_name p)]\<rparr>
          in (case ares_query_sync w (dns_name p) of
                None \<Rightarrow> w1\<lparr>requests := requests w1 @ [QueryRequest (query_channel p) this]\<rparr>
              | Some (status, timeouts, buf) \<Rightarrow>
                  onAresSrvStartCallback this status timeouts buf w1)
      | _ \<Rightarrow> w)"

definition resolveSrv ::
  "string \<Rightarrow> DnsLookupFamily \<Rightarrow> nat \<Rightarrow> state \<Rightarrow> nat option \<times> state" where
  "resolveSrv name family cb w =
     (let this = next_object w;
          pending_srv_res = new_PendingSrvResolution cb (channel w) name family;
          w1 = w\<lparr>heap := (heap w)(this \<mapsto> Srv pending_srv_res), next_object := Suc this\<rparr>;
          w2 = getSrvByName this w1
      in preparePendingResolution this w2)"

subsection \<open>Cancellation and answers from the network\<close>

text \<open>
  Modelled from the spec: \<^verbatim>\<open>cancel()\<close> is defined in \<^verbatim>\<open>dns_impl.h\<close>, which is not among
  the sources. It sets the cancellation flag on the owning query object, is idempotent and
  tears nothing down.
\<close>

definition cancel :: "nat \<Rightarrow> state \<Rightarrow> state" where
  "cancel handle w =
     (case heap w handle of
        None \<Rightarrow> w
      | Some obj \<Rightarrow> w\<lparr>heap := (heap w)(handle \<mapsto> set_cancelled obj)\<rparr>)"

text \<open>
  The library completing an outstanding request while it processes its sockets
  (\<^verbatim>\<open>ares_process_fd\<close>, driven by \<^verbatim>\<open>onEventCallback\<close>): the request leaves the library and
  its callback runs with the answer.
\<close>

definition ares_answer_getaddrinfo ::
  "request \<Rightarrow> int \<Rightarrow> int \<Rightarrow> ares_addrinfo option \<Rightarrow> state \<Rightarrow> state" where
  "ares_answer_getaddrinfo r status timeouts addrinfo w =
     (case r of
        GetAddrInfoRequest c this \<Rightarrow>
          if r \<in> set (requests w) then
            onAresGetAddrInfoCallback this status timeouts addrinfo
              (w\<lparr>requests := remove1 r (requests w)\<rparr>)
          else w
      | QueryRequest c this \<Rightarrow> w)"

definition ares_answer_query :: "request \<Rightarrow> int \<Rightarrow> int \<Rightarrow> srv_buf \<Rightarrow> state \<Rightarrow> state" where
  "ares_answer_query r status timeouts buf w =
     (case r of
        QueryRequest c this \<Rightarrow>
          if r \<in> set (requests w) then
            onAresSrvStartCallback this status timeouts buf
              (w\<lparr>requests := remove1 r (requests w)\<rparr>)
          else w
      | GetAddrInfoRequest c this \<Rightarrow> w)"

section \<open>Vocabulary of the properties\<close>

subsection \<open>Example states\<close>

text \<open>
  A resolver on a library that sends every request to the network, and one whose
  \<^verbatim>\<open>ares_query\<close> rejects every name before it returns.
\<close>

definition network_only :: state where
  "network_only = DnsResolverImpl (\<lambda>name family. None) (\<lambda>name. None)"

definition rejects_names :: state where
  "rejects_names =
     DnsResolverImpl (\<lambda>name family. None) (\<lambda>name. Some (ARES_EBADNAME, 0, (ARES_EBADNAME, [])))"

text \<open>An address query for family V4Only, outstanding in the library.\<close>

definition issued_v4 :: state where
  "issued_v4 = snd (resolve ''a.example'' V4Only (UserCb 7) network_only)"

text \<open>
  The same query answered with \<^verbatim>\<open>ARES_ECONNREFUSED\<close>: the resolver is left with a dirty
  channel and nothing outstanding.
\<close>

definition refused :: state where
  "refused =
     ares_answer_getaddrinfo (GetAddrInfoRequest 1 0) ARES_ECONNREFUSED 0 None
       (snd (resolve ''a.example'' V4Only (UserCb 5) network_only))"

text \<open>An SRV query whose answer parsed into the given targets.\<close>

definition one_target :: "ares_srv_reply list" where
  "one_target = [\<lparr>host = ''a.example'', priority = 1, weight = 2, port = 80, srv_ttl = 30\<rparr>]"

definition two_targets :: "ares_srv_reply list" where
  "two_targets =
     [\<lparr>host = ''a.example'', priority = 1, weight = 2, port = 80, srv_ttl = 30\<rparr>,
      \<lparr>host = ''b.example'', priority = 1, weight = 3, port = 81, srv_ttl = 30\<rparr>]"

definition fanned_out :: "ares_srv_reply list \<Rightarrow> state" where
  "fanned_out targets =
     ares_answer_query (QueryRequest 1 0) ARES_SUCCESS 0 (ARES_SUCCESS, targets)
       (snd (resolveSrv ''svc'' V4Only 7 network_only))"

text \<open>
  Answers to an address request: one whose second record is of another family than its
  first, and one whose only record is neither IPv4 nor IPv6.
\<close>

definition mixed_answer :: ares_addrinfo where
  "mixed_answer =
     \<lparr>nodes = [\<lparr>ai_family = AF_INET, ai_addr = 4, ai_ttl = 60\<rparr>,
               \<lparr>ai_family = AF_INET6, ai_addr = 6, ai_ttl = 300\<rparr>]\<rparr>"

definition foreign_answer :: ares_addrinfo where
  "foreign_answer = \<lparr>nodes = [\<lparr>ai_family = AF_UNIX, ai_addr = 5, ai_ttl = 30\<rparr>]\<rparr>"


text \<open>
  An address query for family Auto, outstanding in the library on its first (IPv6)
  attempt, and the query object as it is then.
\<close>

text \<open>
  Two address queries outstanding, a V4Only one and, after it, an Auto one on its first
  (IPv6) attempt, when the first is answered with \<^verbatim>\<open>ARES_ECONNREFUSED\<close>: the channel is
  dirty and the Auto query still outstanding on it.
\<close>

definition sibling_refused :: state where
  "sibling_refused =
     ares_answer_getaddrinfo (GetAddrInfoRequest 1 0) ARES_ECONNREFUSED 0 None
       (snd (resolve ''a.example'' Auto (UserCb 7)
         (snd (resolve ''b.example'' V4Only (UserCb 5) network_only))))"

definition auto_issued :: state where
  "auto_issued = snd (resolve ''a.example'' Auto (UserCb 7) network_only)"

definition auto_first_attempt :: PendingResolution where
  "auto_first_attempt =
     \<lparr>owned = True, completed = False, cancelled = False, query_channel = 1,
      dns_name = ''a.example'', fallback_if_failed = True, callback = UserCb 7\<rparr>"

subsection \<open>Runs\<close>

text \<open>
  What can happen to a resolver, one action at a time: a caller starts a query or cancels
  a handle, the library answers an outstanding request with any status and data, or the
  resolver is destroyed. A run performs a list of actions in order.
\<close>

datatype action =
    Resolve string DnsLookupFamily nat
  | ResolveSrv string DnsLookupFamily nat
  | Cancel nat
  | AnswerGetAddrInfo request int int "ares_addrinfo option"
  | AnswerQuery request int int srv_buf
  | Destroy

fun perform :: "action \<Rightarrow> state \<Rightarrow> state" where
  "perform (Resolve name family c) w = snd (resolve name family (UserCb c) w)"
| "perform (ResolveSrv name family c) w = snd (resolveSrv name family c w)"
| "perform (Cancel handle) w = cancel handle w"
| "perform (AnswerGetAddrInfo r status timeouts addrinfo) w =
     ares_answer_getaddrinfo r status timeouts addrinfo w"
| "perform (AnswerQuery r status timeouts buf) w = ares_answer_query r status timeouts buf w"
| "perform Destroy w = DnsResolverImpl_destructor w"

definition run :: "action list \<Rightarrow> state \<Rightarrow> state" where
  "run acts w = fold perform acts w"

text \<open>The events in which the query object at \<open>h\<close> invokes its caller's callback.\<close>

fun callback_of :: "nat \<Rightarrow> event \<Rightarrow> bool" where
  "callback_of h (Callback q c status response) = (q = h)"
| "callback_of h (SrvCallback q c srv_records) = (q = h)"
| "callback_of h _ = False"

text \<open>
  The first attempt of \<open>auto_issued\<close> fails, its fallback succeeds, and the resolver is
  destroyed.
\<close>

definition answers_then_destroy :: "action list" where
  "answers_then_destroy =
     [AnswerGetAddrInfo (GetAddrInfoRequest 1 0) ARES_ENOTFOUND 0 None,
      AnswerGetAddrInfo (GetAddrInfoRequest 1 0) ARES_SUCCESS 0 (Some mixed_answer),
      Destroy]"

text \<open>
  The invariant behind cancellation: the address \<open>h\<close> has been handed out, and the object
  at \<open>h\<close>, if there still is one, is cancelled. A state transformer keeps \<open>h\<close> silent
  when it preserves the invariant and adds no callback of \<open>h\<close> to the trace.
\<close>

definition silenced :: "nat \<Rightarrow> state \<Rightarrow> bool" where
  "silenced h w =
     (h < next_object w \<and> (case heap w h of None \<Rightarrow> True | Some obj \<Rightarrow> cancelled_of obj))"

definition keeps_silent :: "nat \<Rightarrow> (state \<Rightarrow> state) \<Rightarrow> bool" where
  "keeps_silent h f =
     (\<forall>w. silenced h w \<longrightarrow>
        silenced h (f w) \<and>
        filter (callback_of h) (trace (f w)) = filter (callback_of h) (trace w))"

subsection \<open>Destruction\<close>






section \<open>Basic facts\<close>

subsection \<open>The completion handler of an address query, case by case\<close>


lemma callback_no_object:
  "heap w this = None \<Longrightarrow> onAresGetAddrInfoCallback this status timeouts addrinfo w = w"
  by (simp add: onAresGetAddrInfoCallback.simps)

lemma callback_srv_object:
  "heap w this = Some (Srv s) \<Longrightarrow> onAresGetAddrInfoCallback this status timeouts addrinfo w = w"
  by (simp add: onAresGetAddrInfoCallback.simps)

lemma callback_destruction:
  "heap w this = Some (Addr p) \<Longrightarrow>
   onAresGetAddrInfoCallback this ARES_EDESTRUCTION timeouts addrinfo w =
     delete_this this (if \<not> cancelled p then invoke this (callback p) Failure [] w else w)"
  by (simp add: onAresGetAddrInfoCallback.simps)

lemma completed_update_same:
  "completed (p::PendingResolution) \<Longrightarrow> p\<lparr>completed := True\<rparr> = p"
  by (cases p) simp

lemma callback_final:
  "heap w this = Some (Addr p) \<Longrightarrow> status \<noteq> ARES_EDESTRUCTION \<Longrightarrow>
   \<not> fallback_if_failed p \<or> completed p \<or> address_list status addrinfo \<noteq> [] \<Longrightarrow>
   onAresGetAddrInfoCallback this status timeouts addrinfo w =
     (let w2 = w\<lparr>dirty_channel := dirty_channel w \<or> (\<not> fallback_if_failed p \<and> status = ARES_ECONNREFUSED),
                 heap := (heap w)(this \<mapsto> Addr (p\<lparr>completed := True\<rparr>))\<rparr>;
          w3 = (if \<not> cancelled p
                then invoke this (callback p) (resolution_status status) (address_list status addrinfo) w2
                else w2)
      in if owned p then delete_this this w3 else w3)"
  by (auto simp: onAresGetAddrInfoCallback.simps Let_def address_list_def completed_update_same)

lemma callback_fallback:
  "heap w this = Some (Addr p) \<Longrightarrow> status \<noteq> ARES_EDESTRUCTION \<Longrightarrow>
   fallback_if_failed p \<Longrightarrow> \<not> completed p \<Longrightarrow> address_list status addrinfo = [] \<Longrightarrow>
   onAresGetAddrInfoCallback this status timeouts addrinfo w =
     getAddrInfo this AF_INET (w\<lparr>heap := (heap w)(this \<mapsto> Addr (p\<lparr>fallback_if_failed := False\<rparr>))\<rparr>)"
  by (simp add: onAresGetAddrInfoCallback.simps Let_def)

lemma getAddrInfo_object:
  "heap w this = Some (Addr p) \<Longrightarrow>
   getAddrInfo this family w =
     (case ares_getaddrinfo_sync w (dns_name p) family of
        None \<Rightarrow> w\<lparr>requests := requests w @ [GetAddrInfoRequest (query_channel p) this],
                  trace := trace w @ [AresGetAddrInfo (query_channel p) (dns_name p) family]\<rparr>
      | Some (status, timeouts, addrinfo) \<Rightarrow>
          onAresGetAddrInfoCallback this status timeouts addrinfo
            (w\<lparr>trace := trace w @ [AresGetAddrInfo (query_channel p) (dns_name p) family]\<rparr>))"
  by (simp add: getAddrInfo.simps Let_def split: option.splits)

lemma getAddrInfo_no_object:
  "(\<forall>p. heap w this \<noteq> Some (Addr p)) \<Longrightarrow> getAddrInfo this family w = w"
  by (simp add: getAddrInfo.simps split: option.splits object.splits)

lemma callback_final_user_trace:
  assumes "heap w this = Some (Addr p)" "status \<noteq> ARES_EDESTRUCTION"
    "\<not> fallback_if_failed p \<or> completed p \<or> address_list status addrinfo \<noteq> []"
    "callback p = UserCb c"
  shows "trace (onAresGetAddrInfoCallback this status timeouts addrinfo w) =
           trace w @ (if cancelled p then []
                      else [Callback this c (resolution_status status) (address_list status addrinfo)])
                   @ (if owned p then [Delete this] else [])"
  using assms by (simp add: callback_final Let_def delete_this_def)

lemma success_not_destruction: "ARES_SUCCESS \<noteq> ARES_EDESTRUCTION"
  by (simp add: ARES_SUCCESS_def ARES_EDESTRUCTION_def)

lemma issued_v4_object:
  "heap issued_v4 0 = Some (Addr \<lparr>owned = True, completed = False, cancelled = False, query_channel = 1,
      dns_name = ''a.example'', fallback_if_failed = False, callback = UserCb 7\<rparr>)"
  by code_simp

subsection \<open>Destruction of a channel\<close>








subsection \<open>A cancelled query stays silent\<close>





lemma keeps_silentI:
  "(\<And>w. silenced h w \<Longrightarrow> silenced h (f w)) \<Longrightarrow>
   (\<And>w. silenced h w \<Longrightarrow>
      filter (callback_of h) (trace (f w)) = filter (callback_of h) (trace w)) \<Longrightarrow>
   keeps_silent h f"
  by (simp add: keeps_silent_def)

lemma keeps_silent_id: "keeps_silent h (\<lambda>w. w)"
  by (simp add: keeps_silent_def)

lemma keeps_silentD:
  "keeps_silent h f \<Longrightarrow> silenced h w \<Longrightarrow>
   silenced h (f w) \<and> filter (callback_of h) (trace (f w)) = filter (callback_of h) (trace w)"
  unfolding keeps_silent_def by blast

lemma keeps_silent_comp:
  assumes "keeps_silent h f" "keeps_silent h g"
  shows "keeps_silent h (\<lambda>w. g (f w))"
proof (rule keeps_silentI)
  fix w assume w: "silenced h w"
  from keeps_silentD [OF assms(1) w] have f: "silenced h (f w)"
    and tf: "filter (callback_of h) (trace (f w)) = filter (callback_of h) (trace w)" by blast+
  from keeps_silentD [OF assms(2) f] show "silenced h (g (f w))" by blast
  from keeps_silentD [OF assms(2) f] tf
  show "filter (callback_of h) (trace (g (f w))) = filter (callback_of h) (trace w)" by simp
qed

lemma keeps_silent_fold:
  "(\<And>x. keeps_silent h (g x)) \<Longrightarrow> keeps_silent h (fold g xs)"
proof (induction xs)
  case Nil
  then show ?case by (simp add: keeps_silent_def)
next
  case (Cons x xs)
  have "keeps_silent h (\<lambda>w. fold g xs (g x w))"
    using Cons.prems Cons.IH [OF Cons.prems] by (rule keeps_silent_comp [of h "g x" "fold g xs"])
  then show ?case by (simp add: comp_def)
qed

lemma keeps_silent_if:
  "keeps_silent h f \<Longrightarrow> keeps_silent h g \<Longrightarrow> keeps_silent h (\<lambda>w. if b w then f w else g w)"
  unfolding keeps_silent_def by simp

lemma keeps_silent_delete_this: "keeps_silent h (delete_this q)"
  by (simp add: keeps_silent_def silenced_def delete_this_def)

lemma keeps_silent_finish: "keeps_silent h (onAresSrvFinishCallback this srv_records)"
  by (auto simp: keeps_silent_def silenced_def onAresSrvFinishCallback_def delete_this_def Let_def
           split: option.splits object.splits)

lemma keeps_silent_invoke: "q \<noteq> h \<Longrightarrow> keeps_silent h (invoke q cb status response)"
proof (cases cb)
  case (UserCb c)
  assume "q \<noteq> h"
  with UserCb show ?thesis by (simp add: keeps_silent_def silenced_def)
next
  case (SrvSubCb this finished srv_records current_reply)
  then show ?thesis
    using keeps_silent_finish [of h this] by (simp add: keeps_silent_def Let_def)
qed

lemma silenced_cancelled:
  "silenced h w \<Longrightarrow> heap w h = Some (Addr p) \<Longrightarrow> cancelled p"
  by (simp add: silenced_def)

lemma silent_store:
  assumes "silenced h w" "heap w this = Some (Addr p)" "cancelled p' = cancelled p"
  shows "silenced h (w\<lparr>heap := (heap w)(this \<mapsto> Addr p')\<rparr>)"
  using assms by (auto simp: silenced_def)

lemma silent_callback_destruction:
  assumes w: "silenced h w" and obj: "heap w this = Some (Addr p)"
  shows "silenced h (onAresGetAddrInfoCallback this ARES_EDESTRUCTION timeouts addrinfo w) \<and>
         filter (callback_of h) (trace (onAresGetAddrInfoCallback this ARES_EDESTRUCTION timeouts addrinfo w))
           = filter (callback_of h) (trace w)"
proof -
  let ?w1 = "if \<not> cancelled p then invoke this (callback p) Failure [] w else w"
  have 1: "silenced h ?w1 \<and> filter (callback_of h) (trace ?w1) = filter (callback_of h) (trace w)"
  proof (cases "cancelled p")
    case True
    then show ?thesis using w by simp
  next
    case False
    then have "this \<noteq> h" using silenced_cancelled [OF w] obj by auto
    from keeps_silentD [OF keeps_silent_invoke [OF this] w] False show ?thesis by simp
  qed
  from keeps_silentD [OF keeps_silent_delete_this, of h ?w1 this] 1
  show ?thesis by (simp add: callback_destruction [OF obj])
qed

lemma silent_callback_final:
  assumes w: "silenced h w" and obj: "heap w this = Some (Addr p)"
    and st: "status \<noteq> ARES_EDESTRUCTION"
    and fin: "\<not> fallback_if_failed p \<or> completed p \<or> address_list status addrinfo \<noteq> []"
  shows "silenced h (onAresGetAddrInfoCallback this status timeouts addrinfo w) \<and>
         filter (callback_of h) (trace (onAresGetAddrInfoCallback this status timeouts addrinfo w))
           = filter (callback_of h) (trace w)"
proof -
  define w2 where "w2 = w\<lparr>dirty_channel := dirty_channel w \<or> (\<not> fallback_if_failed p \<and> status = ARES_ECONNREFUSED),
                 heap := (heap w)(this \<mapsto> Addr (p\<lparr>completed := True\<rparr>))\<rparr>"
  define w3 where "w3 = (if \<not> cancelled p
                then invoke this (callback p) (resolution_status status) (address_list status addrinfo) w2
                else w2)"
  have res: "onAresGetAddrInfoCallback this status timeouts addrinfo w =
      (if owned p then delete_this this w3 else w3)"
    by (simp add: callback_final [OF obj st fin] w2_def w3_def Let_def)
  have 2: "silenced h w2" and t2: "trace w2 = trace w"
    using w obj by (auto simp: w2_def silenced_def)
  have 3: "silenced h w3 \<and> filter (callback_of h) (trace w3) = filter (callback_of h) (trace w)"
  proof (cases "cancelled p")
    case True
    then show ?thesis using 2 t2 by (simp add: w3_def)
  next
    case False
    then have "this \<noteq> h" using silenced_cancelled [OF w] obj by auto
    from keeps_silentD [OF keeps_silent_invoke [OF this] 2] False t2 show ?thesis
      by (simp add: w3_def)
  qed
  show ?thesis
  proof (cases "owned p")
    case True
    from keeps_silentD [OF keeps_silent_delete_this, of h w3 this] 3 True res show ?thesis by simp
  next
    case False
    with 3 res show ?thesis by simp
  qed
qed

lemma silent_callback_no_fallback:
  assumes w: "silenced h w" and obj: "heap w this = Some (Addr p)"
    and fin: "\<not> fallback_if_failed p"
  shows "silenced h (onAresGetAddrInfoCallback this status timeouts addrinfo w) \<and>
         filter (callback_of h) (trace (onAresGetAddrInfoCallback this status timeouts addrinfo w))
           = filter (callback_of h) (trace w)"
proof (cases "status = ARES_EDESTRUCTION")
  case True
  then show ?thesis using silent_callback_destruction [OF w obj] by simp
next
  case False
  then show ?thesis using silent_callback_final [OF w obj] fin by simp
qed

lemma silent_getAddrInfo_no_fallback:
  assumes w: "silenced h w" and obj: "heap w this = Some (Addr p)"
    and fin: "\<not> fallback_if_failed p"
  shows "silenced h (getAddrInfo this family w) \<and>
         filter (callback_of h) (trace (getAddrInfo this family w)) = filter (callback_of h) (trace w)"
proof -
  define w1 where "w1 = w\<lparr>trace := trace w @ [AresGetAddrInfo (query_channel p) (dns_name p) family]\<rparr>"
  have 1: "silenced h w1" and o1: "heap w1 this = Some (Addr p)"
    and t1: "filter (callback_of h) (trace w1) = filter (callback_of h) (trace w)"
    using w obj by (simp_all add: w1_def silenced_def)
  show ?thesis
  proof (cases "ares_getaddrinfo_sync w (dns_name p) family")
    case None
    then have "getAddrInfo this family w =
        w1\<lparr>requests := requests w @ [GetAddrInfoRequest (query_channel p) this]\<rparr>"
      by (simp add: getAddrInfo_object [OF obj] w1_def)
    then show ?thesis using 1 t1 by (simp add: silenced_def)
  next
    case (Some a)
    obtain status timeouts addrinfo where a: "a = (status, timeouts, addrinfo)" by (cases a)
    have "getAddrInfo this family w = onAresGetAddrInfoCallback this status timeouts addrinfo w1"
      using Some a by (simp add: getAddrInfo_object [OF obj] w1_def)
    then show ?thesis
      using silent_callback_no_fallback [OF 1 o1 fin, of status timeouts addrinfo] t1 by simp
  qed
qed

lemma silent_callback:
  assumes w: "silenced h w"
  shows "silenced h (onAresGetAddrInfoCallback this status timeouts addrinfo w) \<and>
         filter (callback_of h) (trace (onAresGetAddrInfoCallback this status timeouts addrinfo w))
           = filter (callback_of h) (trace w)"
proof (cases "heap w this")
  case None
  then show ?thesis using w by (simp add: callback_no_object)
next
  case (Some obj)
  show ?thesis
  proof (cases obj)
    case (Srv s)
    with Some show ?thesis using w by (simp add: callback_srv_object)
  next
    case (Addr p)
    with Some have obj: "heap w this = Some (Addr p)" by simp
    show ?thesis
    proof (cases "status = ARES_EDESTRUCTION")
      case True
      then show ?thesis using silent_callback_destruction [OF w obj] by simp
    next
      case st: False
      show ?thesis
      proof (cases "\<not> fallback_if_failed p \<or> completed p \<or> address_list status addrinfo \<noteq> []")
        case True
        then show ?thesis using silent_callback_final [OF w obj st] by simp
      next
        case False
        define w' where "w' = w\<lparr>heap := (heap w)(this \<mapsto> Addr (p\<lparr>fallback_if_failed := False\<rparr>))\<rparr>"
        have res: "onAresGetAddrInfoCallback this status timeouts addrinfo w = getAddrInfo this AF_INET w'"
          using False by (simp add: callback_fallback [OF obj st] w'_def)
        have 1: "silenced h w'" using silent_store [OF w obj, of "p\<lparr>fallback_if_failed := False\<rparr>"]
          by (simp add: w'_def)
        have o: "heap w' this = Some (Addr (p\<lparr>fallback_if_failed := False\<rparr>))"
          and t: "trace w' = trace w" by (simp_all add: w'_def)
        from silent_getAddrInfo_no_fallback [OF 1 o, of AF_INET] res t show ?thesis by simp
      qed
    qed
  qed
qed

lemma keeps_silent_callback:
  "keeps_silent h (onAresGetAddrInfoCallback this status timeouts addrinfo)"
  using silent_callback by (simp add: keeps_silent_def)

lemma keeps_silent_getAddrInfo: "keeps_silent h (getAddrInfo this family)"
proof (rule keeps_silentI)
  fix w assume w: "silenced h w"
  have "silenced h (getAddrInfo this family w) \<and>
        filter (callback_of h) (trace (getAddrInfo this family w)) = filter (callback_of h) (trace w)"
  proof (cases "\<exists>p. heap w this = Some (Addr p)")
    case False
    then show ?thesis using w by (simp add: getAddrInfo_no_object)
  next
    case True
    then obtain p where obj: "heap w this = Some (Addr p)" by blast
    define w1 where "w1 = w\<lparr>trace := trace w @ [AresGetAddrInfo (query_channel p) (dns_name p) family]\<rparr>"
    have 1: "silenced h w1"
      and t1: "filter (callback_of h) (trace w1) = filter (callback_of h) (trace w)"
      using w by (simp_all add: w1_def silenced_def)
    show ?thesis
    proof (cases "ares_getaddrinfo_sync w (dns_name p) family")
      case None
      then have "getAddrInfo this family w =
          w1\<lparr>requests := requests w @ [GetAddrInfoRequest (query_channel p) this]\<rparr>"
        by (simp add: getAddrInfo_object [OF obj] w1_def)
      then show ?thesis using 1 t1 by (simp add: silenced_def)
    next
      case (Some a)
      obtain status timeouts addrinfo where a: "a = (status, timeouts, addrinfo)" by (cases a)
      have "getAddrInfo this family w = onAresGetAddrInfoCallback this status timeouts addrinfo w1"
        using Some a by (simp add: getAddrInfo_object [OF obj] w1_def)
      then show ?thesis
        using silent_callback [OF 1, of this status timeouts addrinfo] t1 by simp
    qed
  qed
  then show "silenced h (getAddrInfo this family w)"
    and "filter (callback_of h) (trace (getAddrInfo this family w)) = filter (callback_of h) (trace w)"
    by simp_all
qed

lemma keeps_silent_deliver_destruction: "keeps_silent h (deliver_destruction r)"
proof (cases r)
  case (GetAddrInfoRequest c this)
  then show ?thesis using keeps_silent_callback [of h this ARES_EDESTRUCTION 0 None]
    by (simp add: keeps_silent_def)
next
  case (QueryRequest c this)
  then show ?thesis using keeps_silent_delete_this [of h this]
    by (simp add: keeps_silent_def onAresSrvStartCallback_destruction_def)
qed

lemma keeps_silent_ares_destroy: "keeps_silent h (ares_destroy c)"
proof (rule keeps_silentI)
  fix w assume w: "silenced h w"
  define w' where "w' = w\<lparr>requests := filter (\<lambda>r. request_channel r \<noteq> c) (requests w),
                            trace := trace w @ [AresDestroy c]\<rparr>"
  have 1: "silenced h w'"
    and t: "filter (callback_of h) (trace w') = filter (callback_of h) (trace w)"
    using w by (simp_all add: w'_def silenced_def)
  have res: "ares_destroy c w =
      fold deliver_destruction (filter (\<lambda>r. request_channel r = c) (requests w)) w'"
    by (simp add: ares_destroy_def w'_def)
  from keeps_silentD [OF keeps_silent_fold [of h deliver_destruction] 1] keeps_silent_deliver_destruction
  have "silenced h (ares_destroy c w) \<and>
        filter (callback_of h) (trace (ares_destroy c w)) = filter (callback_of h) (trace w')"
    by (simp add: res)
  with t show "silenced h (ares_destroy c w)"
    and "filter (callback_of h) (trace (ares_destroy c w)) = filter (callback_of h) (trace w)"
    by simp_all
qed

lemma keeps_silent_initializeChannel: "keeps_silent h initializeChannel"
  by (simp add: keeps_silent_def silenced_def initializeChannel_def)

lemma keeps_silent_prepare: "keeps_silent h (\<lambda>w. snd (preparePendingResolution q w))"
proof (rule keeps_silentI)
  fix w assume w: "silenced h w"
  have c: "cancelled_of (set_owned obj) = cancelled_of obj" for obj by (cases obj) simp_all
  show "silenced h (snd (preparePendingResolution q w))"
    using w by (auto simp: preparePendingResolution_def silenced_def c split: option.splits)
  show "filter (callback_of h) (trace (snd (preparePendingResolution q w))) =
        filter (callback_of h) (trace w)"
    by (simp add: preparePendingResolution_def split: option.splits)
qed

lemma keeps_silent_resolve: "keeps_silent h (\<lambda>w. snd (resolve name family cb w))"
proof (rule keeps_silentI)
  fix w assume w: "silenced h w"
  define w1 where "w1 = (if dirty_channel w then initializeChannel (ares_destroy (channel w) w) else w)"
  define p where "p = (if family = Auto
                       then (new_PendingResolution cb (channel w1) name)\<lparr>fallback_if_failed := True\<rparr>
                       else new_PendingResolution cb (channel w1) name)"
  define w2 where "w2 = w1\<lparr>heap := (heap w1)(next_object w1 \<mapsto> Addr p), next_object := Suc (next_object w1)\<rparr>"
  define w3 where "w3 = getAddrInfo (next_object w1) (if family = V4Only then AF_INET else AF_INET6) w2"
  have res: "snd (resolve name family cb w) = snd (preparePendingResolution (next_object w1) w3)"
    by (simp add: resolve_def Let_def w1_def p_def w2_def w3_def)
  have 1: "silenced h w1 \<and> filter (callback_of h) (trace w1) = filter (callback_of h) (trace w)"
  proof (cases "dirty_channel w")
    case True
    from keeps_silentD [OF keeps_silent_comp [OF keeps_silent_ares_destroy keeps_silent_initializeChannel] w]
    show ?thesis using True by (simp add: w1_def)
  next
    case False
    then show ?thesis using w by (simp add: w1_def)
  qed
  then have 2: "silenced h w2" and t2: "trace w2 = trace w1"
    by (auto simp: w2_def silenced_def)
  from keeps_silentD [OF keeps_silent_getAddrInfo 2]
  have 3: "silenced h w3" and t3: "filter (callback_of h) (trace w3) = filter (callback_of h) (trace w2)"
    by (simp_all add: w3_def)
  from keeps_silentD [OF keeps_silent_prepare 3]
  have "silenced h (snd (resolve name family cb w)) \<and>
        filter (callback_of h) (trace (snd (resolve name family cb w))) = filter (callback_of h) (trace w3)"
    by (simp add: res)
  with 1 t2 t3 show "silenced h (snd (resolve name family cb w))"
    and "filter (callback_of h) (trace (snd (resolve name family cb w))) = filter (callback_of h) (trace w)"
    by simp_all
qed

lemma keeps_silent_srv_start: "keeps_silent h (onAresSrvStartCallback this status timeouts buf)"
proof (rule keeps_silentI)
  fix w assume w: "silenced h w"
  have "silenced h (onAresSrvStartCallback this status timeouts buf w) \<and>
        filter (callback_of h) (trace (onAresSrvStartCallback this status timeouts buf w)) =
          filter (callback_of h) (trace w)"
  proof (cases "status = ARES_EDESTRUCTION")
    case True
    then show ?thesis using keeps_silentD [OF keeps_silent_delete_this w]
      by (simp add: onAresSrvStartCallback_def onAresSrvStartCallback_destruction_def)
  next
    case st: False
    show ?thesis
    proof (cases "\<exists>p. heap w this = Some (Srv p)")
      case False
      then show ?thesis using w st
        by (auto simp: onAresSrvStartCallback_def split: option.splits object.splits)
    next
      case True
      then obtain p where obj: "heap w this = Some (Srv p)" by blast
      obtain status' srv_reply where buf: "ares_parse_srv_reply buf = (status', srv_reply)"
        by (cases "ares_parse_srv_reply buf")
      show ?thesis
      proof (cases "status = ARES_SUCCESS \<and> status' = ARES_SUCCESS")
        case False
        then have "onAresSrvStartCallback this status timeouts buf w = onAresSrvFinishCallback this [] w"
          using st obj buf by (auto simp: onAresSrvStartCallback_def)
        then show ?thesis using keeps_silentD [OF keeps_silent_finish w] by simp
      next
        case True
        define g where "g = (\<lambda>current_reply w'.
              snd (resolve (host current_reply) (dns_lookup_family p)
                     (SrvSubCb this 0
                        (map (\<lambda>r. SrvDnsResponse (host r) (port r) (srv_ttl r) (weight r)) srv_reply)
                        current_reply) w'))"
        have "onAresSrvStartCallback this status timeouts buf w = fold g srv_reply w"
          using True st obj buf by (simp add: onAresSrvStartCallback_def g_def Let_def)
        moreover have "keeps_silent h (g x)" for x
          unfolding g_def by (rule keeps_silent_resolve)
        ultimately show ?thesis
          using keeps_silentD [OF keeps_silent_fold [of h g srv_reply] w] by simp
      qed
    qed
  qed
  then show "silenced h (onAresSrvStartCallback this status timeouts buf w)"
    and "filter (callback_of h) (trace (onAresSrvStartCallback this status timeouts buf w)) =
          filter (callback_of h) (trace w)"
    by simp_all
qed

lemma keeps_silent_getSrvByName: "keeps_silent h (getSrvByName this)"
proof (rule keeps_silentI)
  fix w assume w: "silenced h w"
  have "silenced h (getSrvByName this w) \<and>
        filter (callback_of h) (trace (getSrvByName this w)) = filter (callback_of h) (trace w)"
  proof (cases "\<exists>p. heap w this = Some (Srv p)")
    case False
    then show ?thesis using w
      by (auto simp: getSrvByName_def split: option.splits object.splits)
  next
    case True
    then obtain p where obj: "heap w this = Some (Srv p)" by blast
    define w1 where "w1 = w\<lparr>trace := trace w @ [AresQuery (query_channel p) (dns_name p)]\<rparr>"
    have 1: "silenced h w1"
      and t1: "filter (callback_of h) (trace w1) = filter (callback_of h) (trace w)"
      using w by (simp_all add: w1_def silenced_def)
    show ?thesis
    proof (cases "ares_query_sync w (dns_name p)")
      case None
      then have "getSrvByName this w = w1\<lparr>requests := requests w @ [QueryRequest (query_channel p) this]\<rparr>"
        using obj by (simp add: getSrvByName_def w1_def Let_def)
      then show ?thesis using 1 t1 by (simp add: silenced_def)
    next
      case (Some a)
      obtain status timeouts buf where a: "a = (status, timeouts, buf)" by (cases a)
      have "getSrvByName this w = onAresSrvStartCallback this status timeouts buf w1"
        using Some a obj by (simp add: getSrvByName_def w1_def Let_def)
      then show ?thesis
        using keeps_silentD [OF keeps_silent_srv_start 1, of this status timeouts buf] t1 by simp
    qed
  qed
  then show "silenced h (getSrvByName this w)"
    and "filter (callback_of h) (trace (getSrvByName this w)) = filter (callback_of h) (trace w)"
    by simp_all
qed

lemma keeps_silent_resolveSrv: "keeps_silent h (\<lambda>w. snd (resolveSrv name family cb w))"
proof (rule keeps_silentI)
  fix w assume w: "silenced h w"
  define w1 where "w1 = w\<lparr>heap := (heap w)(next_object w \<mapsto> Srv (new_PendingSrvResolution cb (channel w) name family)),
                            next_object := Suc (next_object w)\<rparr>"
  have res: "snd (resolveSrv name family cb w) =
      snd (preparePendingResolution (next_object w) (getSrvByName (next_object w) w1))"
    by (simp add: resolveSrv_def Let_def w1_def)
  have 1: "silenced h w1" and t1: "trace w1 = trace w"
    using w by (auto simp: w1_def silenced_def)
  from keeps_silentD [OF keeps_silent_comp [OF keeps_silent_getSrvByName keeps_silent_prepare] 1] t1
  show "silenced h (snd (resolveSrv name family cb w))"
    and "filter (callback_of h) (trace (snd (resolveSrv name family cb w))) = filter (callback_of h) (trace w)"
    by (simp_all add: res)
qed

lemma keeps_silent_cancel: "keeps_silent h (cancel handle)"
proof -
  have c: "cancelled_of (set_cancelled obj)" for obj by (cases obj) simp_all
  show ?thesis
    by (auto simp: keeps_silent_def silenced_def cancel_def c split: option.splits)
qed

lemma silenced_cancel: "h < next_object w \<Longrightarrow> silenced h (cancel h w)"
proof -
  have c: "cancelled_of (set_cancelled obj)" for obj by (cases obj) simp_all
  show "h < next_object w \<Longrightarrow> silenced h (cancel h w)"
    by (auto simp: silenced_def cancel_def c split: option.splits)
qed

lemma keeps_silent_answer_getaddrinfo:
  "keeps_silent h (ares_answer_getaddrinfo r status timeouts addrinfo)"
proof (rule keeps_silentI)
  fix w assume w: "silenced h w"
  have 1: "silenced h (w\<lparr>requests := remove1 r (requests w)\<rparr>)"
    using w by (simp add: silenced_def)
  have "silenced h (ares_answer_getaddrinfo r status timeouts addrinfo w) \<and>
        filter (callback_of h) (trace (ares_answer_getaddrinfo r status timeouts addrinfo w)) =
          filter (callback_of h) (trace w)"
    using w silent_callback [OF 1]
    by (cases r) (simp_all add: ares_answer_getaddrinfo_def)
  then show "silenced h (ares_answer_getaddrinfo r status timeouts addrinfo w)"
    and "filter (callback_of h) (trace (ares_answer_getaddrinfo r status timeouts addrinfo w)) =
          filter (callback_of h) (trace w)"
    by simp_all
qed

lemma keeps_silent_answer_query:
  "keeps_silent h (ares_answer_query r status timeouts buf)"
proof (rule keeps_silentI)
  fix w assume w: "silenced h w"
  have 1: "silenced h (w\<lparr>requests := remove1 r (requests w)\<rparr>)"
    using w by (simp add: silenced_def)
  have "silenced h (ares_answer_query r status timeouts buf w) \<and>
        filter (callback_of h) (trace (ares_answer_query r status timeouts buf w)) =
          filter (callback_of h) (trace w)"
    using w keeps_silentD [OF keeps_silent_srv_start 1]
    by (cases r) (simp_all add: ares_answer_query_def)
  then show "silenced h (ares_answer_query r status timeouts buf w)"
    and "filter (callback_of h) (trace (ares_answer_query r status timeouts buf w)) =
          filter (callback_of h) (trace w)"
    by simp_all
qed

lemma keeps_silent_perform: "keeps_silent h (perform a)"
proof (cases a)
  case (Resolve name family c)
  then show ?thesis using keeps_silent_resolve [of h name family "UserCb c"]
    by (simp add: keeps_silent_def)
next
  case (ResolveSrv name family c)
  then show ?thesis using keeps_silent_resolveSrv [of h name family c]
    by (simp add: keeps_silent_def)
next
  case (Cancel handle)
  then show ?thesis using keeps_silent_cancel [of h handle] by (simp add: keeps_silent_def)
next
  case (AnswerGetAddrInfo r status timeouts addrinfo)
  then show ?thesis using keeps_silent_answer_getaddrinfo [of h r status timeouts addrinfo]
    by (simp add: keeps_silent_def)
next
  case (AnswerQuery r status timeouts buf)
  then show ?thesis using keeps_silent_answer_query [of h r status timeouts buf]
    by (simp add: keeps_silent_def)
next
  case Destroy
  then show ?thesis using keeps_silent_ares_destroy [of h]
    by (simp add: keeps_silent_def DnsResolverImpl_destructor_def)
qed

subsection \<open>Final answers\<close>

lemma callback_final_user_requests:
  assumes "heap w this = Some (Addr p)" "status \<noteq> ARES_EDESTRUCTION"
    "\<not> fallback_if_failed p \<or> completed p \<or> address_list status addrinfo \<noteq> []"
    "callback p = UserCb c"
  shows "requests (onAresGetAddrInfoCallback this status timeouts addrinfo w) = requests w"
  using assms by (simp add: callback_final Let_def delete_this_def)

lemma address_list_success:
  "address_list status addrinfo \<noteq> [] \<Longrightarrow> resolution_status status = Success"
  by (simp add: address_list_def resolution_status_def split: if_splits)

section \<open>Properties\<close>

text \<open>
  C1. For every \<^verbatim>\<open>resolveSrv\<close> call whose SRV lookup ends with a non-success status, a
  parse failure, or zero discovered SRV targets, the caller's callback is invoked exactly
  once, with an empty endpoint list.

  The code does not do this. \<^verbatim>\<open>onAresSrvStartCallback\<close> calls
  \<^verbatim>\<open>onAresSrvFinishCallback({})\<close> for a failed lookup, but the latter sets \<open>completed\<close> only
  for a non-empty list and invokes the callback only when \<open>completed\<close> is set. The theorem
  runs an SRV query that went to the network and is answered with \<^verbatim>\<open>ARES_ENOTFOUND\<close>, with
  an answer that does not parse, and with an answer that parses into no target: each time
  the trace ends as it was when the query was issued, with no callback in it.
\<close>

lemma delivered_event:
  "Callback this c (resolution_status status) (address_list status addrinfo) =
     (if status = ARES_SUCCESS then Callback this c Success (address_list status addrinfo)
      else Callback this c Failure [])"
  by (simp add: resolution_status_def address_list_def)

theorem srv_lookup_failure_invokes_no_callback:
  "fst (resolveSrv ''svc'' V4Only 7 network_only) = Some 0
   \<and> trace (snd (resolveSrv ''svc'' V4Only 7 network_only))
      = [AresInitOptions 1, AresQuery 1 ''svc'']
   \<and> trace (ares_answer_query (QueryRequest 1 0) ARES_ENOTFOUND 0 (ARES_ENOTFOUND, [])
        (snd (resolveSrv ''svc'' V4Only 7 network_only)))
      = [AresInitOptions 1, AresQuery 1 ''svc'']
   \<and> trace (ares_answer_query (QueryRequest 1 0) ARES_SUCCESS 0 (ARES_EBADRESP, [])
        (snd (resolveSrv ''svc'' V4Only 7 network_only)))
      = [AresInitOptions 1, AresQuery 1 ''svc'']
   \<and> trace (ares_answer_query (QueryRequest 1 0) ARES_SUCCESS 0 (ARES_SUCCESS, [])
        (snd (resolveSrv ''svc'' V4Only 7 network_only)))
      = [AresInitOptions 1, AresQuery 1 ''svc'']"
  by code_simp

text \<open>
  C2. At the start of every new top-level \<^verbatim>\<open>resolve\<close> and every new top-level
  \<^verbatim>\<open>resolveSrv\<close> call, if the channel's dirty flag is set, the channel is destroyed and
  recreated before the new request is issued against it.

  \<^verbatim>\<open>resolve\<close> does so; \<^verbatim>\<open>resolveSrv\<close> has no such check. In the state \<open>refused\<close> the
  channel 1 is dirty: \<^verbatim>\<open>resolveSrv\<close> issues its query on channel 1 and leaves the flag set,
  where \<^verbatim>\<open>resolve\<close> destroys channel 1 and issues its request on the new channel 2.
\<close>

theorem resolveSrv_keeps_dirty_channel:
  "dirty_channel refused \<and> channel refused = 1
   \<and> trace (snd (resolveSrv ''svc'' V4Only 7 refused)) = trace refused @ [AresQuery 1 ''svc'']
   \<and> dirty_channel (snd (resolveSrv ''svc'' V4Only 7 refused))
   \<and> trace (snd (resolve ''b.example'' V4Only (UserCb 7) refused))
      = trace refused @ [AresDestroy 1, AresInitOptions 2, AresGetAddrInfo 2 ''b.example'' AF_INET]"
  by code_simp




text \<open>
  C4. For an SRV query that discovers N >= 1 targets, the aggregated result is delivered
  exactly when the number of completed per-target sub-resolutions equals N, and a
  sub-resolution that fails (or returns zero addresses) still increments the completion
  counter while contributing zero endpoints, so the barrier never stalls.

  The code compares the counter with \<^verbatim>\<open>srv_records.size()\<close>, the length of a list that
  starts with the N parsed records and grows by every resolved address, and each closure
  counts in its own copy of \<^verbatim>\<open>finished\<close>. With one target whose sub-resolution returns one
  address the comparison is 1 against 2: the sub-query is freed, nothing is outstanding
  and no callback was invoked. With two targets that both fail, each closure compares 1
  against 2, with the same end.
\<close>

theorem srv_barrier_not_released:
  "requests (fanned_out one_target) = [GetAddrInfoRequest 1 1]
   \<and> trace (ares_answer_getaddrinfo (GetAddrInfoRequest 1 1) ARES_SUCCESS 0
         (Some \<lparr>nodes = [\<lparr>ai_family = AF_INET, ai_addr = 4, ai_ttl = 60\<rparr>]\<rparr>)
         (fanned_out one_target))
      = trace (fanned_out one_target) @ [Delete 1]
   \<and> requests (ares_answer_getaddrinfo (GetAddrInfoRequest 1 1) ARES_SUCCESS 0
         (Some \<lparr>nodes = [\<lparr>ai_family = AF_INET, ai_addr = 4, ai_ttl = 60\<rparr>]\<rparr>)
         (fanned_out one_target)) = []
   \<and> requests (fanned_out two_targets) = [GetAddrInfoRequest 1 1, GetAddrInfoRequest 1 2]
   \<and> trace (ares_answer_getaddrinfo (GetAddrInfoRequest 1 2) ARES_ENOTFOUND 0 None
        (ares_answer_getaddrinfo (GetAddrInfoRequest 1 1) ARES_ENOTFOUND 0 None
          (fanned_out two_targets)))
      = trace (fanned_out two_targets) @ [Delete 1, Delete 2]"
  by code_simp

text \<open>
  C5. For every \<^verbatim>\<open>resolve\<close> with family Auto, the first request is issued for IPv6; if
  and only if that first attempt produces zero addresses, exactly one fallback IPv4
  request is reissued, the fallback flag is consumed before the reissue, no callback fires
  for the discarded first attempt, and only the fallback attempt's result reaches the
  caller.

  This fails when the first attempt is ended by the destruction of its channel, which
  produces no address either: the handler's \<^verbatim>\<open>ARES_EDESTRUCTION\<close> branch calls the caller
  with Failure and an empty list and reissues nothing. The engine need not be destroyed
  for that. In \<open>sibling_refused\<close> an Auto query is outstanding on a channel that another
  query's refusal has made dirty; the next \<^verbatim>\<open>resolve\<close> recreates the channel, and the Auto
  query's caller gets Failure while no IPv4 request is ever issued for its name.
\<close>

theorem auto_attempt_ended_by_channel_recreation:
  "requests sibling_refused = [GetAddrInfoRequest 1 1]
   \<and> trace sibling_refused =
       [AresInitOptions 1, AresGetAddrInfo 1 ''b.example'' AF_INET,
        AresGetAddrInfo 1 ''a.example'' AF_INET6, Callback 0 5 Failure [], Delete 0]
   \<and> trace (snd (resolve ''c.example'' V4Only (UserCb 9) sibling_refused)) =
       trace sibling_refused @
         [AresDestroy 1, Callback 1 7 Failure [], Delete 1, AresInitOptions 2,
          AresGetAddrInfo 2 ''c.example'' AF_INET]
   \<and> requests (snd (resolve ''c.example'' V4Only (UserCb 9) sibling_refused)) =
       [GetAddrInfoRequest 2 2]"
  by code_simp

text \<open>
  C5, as amended. For every \<^verbatim>\<open>resolve\<close> with family Auto, the first request is issued for
  IPv6. When the library answers that first attempt, at once or later: if and only if the
  answer holds zero addresses, exactly one fallback IPv4 request is reissued, the fallback
  flag is consumed before the reissue, no callback fires for the discarded first attempt,
  and only the fallback attempt's result reaches the caller, Success with its addresses or
  Failure with an empty list. When instead the channel is destroyed while an attempt is
  outstanding, the caller gets Failure with an empty list, unless the query is cancelled,
  and no request is reissued.

  The library answers with any status but \<^verbatim>\<open>ARES_EDESTRUCTION\<close>. The theorem says, in this
  order:
  \<^item> \<^verbatim>\<open>resolve\<close> creates the query with the fallback allowed and issues exactly one
    request, for IPv6, on the clean channel; if the library does not answer at once the
    query is returned as an owned handle, otherwise the answer is handled as follows
    before \<^verbatim>\<open>resolve\<close> returns;
  \<^item> an answer to the first attempt with at least one address is final: the callback of
    a query that is not cancelled fires once, with Success and these addresses, and no
    request is issued;
  \<^item> an answer to the first attempt with no address fires no callback: the handler is
    the reissue for IPv4 on the object whose flag is already consumed, which is exactly
    one new request, left outstanding, or, if the library answers it at once, followed by
    the delivery of that answer;
  \<^item> an answer to an attempt whose flag is consumed is final whatever it is: the callback
    fires once, with Success and this attempt's addresses if the status is
    \<^verbatim>\<open>ARES_SUCCESS\<close> and with Failure and an empty list otherwise, and no request is issued;
  \<^item> the destruction of the channel ends any attempt with one callback, Failure and an
    empty list, unless the query is cancelled; the query is freed and no request is
    issued.
\<close>

theorem auto_falls_back_to_v4_once:
  fixes w :: state and name :: string and c :: nat
  defines "wc \<equiv> (if dirty_channel w then initializeChannel (ares_destroy (channel w) w) else w)"
  defines "q \<equiv> next_object wc"
  defines "p0 \<equiv> \<lparr>owned = False, completed = False, cancelled = False, query_channel = channel wc,
                 dns_name = name, fallback_if_failed = True, callback = UserCb c\<rparr>"
  defines "issued \<equiv> wc\<lparr>heap := (heap wc)(q \<mapsto> Addr p0), next_object := Suc q,
                        trace := trace wc @ [AresGetAddrInfo (channel wc) name AF_INET6]\<rparr>"
  shows "(ares_getaddrinfo_sync wc name AF_INET6 = None \<longrightarrow>
            resolve name Auto (UserCb c) w =
              (Some q, issued\<lparr>heap := (heap wc)(q \<mapsto> Addr (p0\<lparr>owned := True\<rparr>)),
                             requests := requests wc @ [GetAddrInfoRequest (channel wc) q]\<rparr>))
       \<and> (ares_getaddrinfo_sync wc name AF_INET6 = Some (status, timeouts, addrinfo) \<longrightarrow>
            resolve name Auto (UserCb c) w =
              preparePendingResolution q (onAresGetAddrInfoCallback q status timeouts addrinfo issued))
       \<and> (heap v this = Some (Addr p) \<and> callback p = UserCb c \<and> fallback_if_failed p \<and> \<not> completed p
            \<and> status \<noteq> ARES_EDESTRUCTION \<and> address_list status addrinfo \<noteq> [] \<longrightarrow>
            trace (onAresGetAddrInfoCallback this status timeouts addrinfo v) =
              trace v @ (if cancelled p then []
                         else [Callback this c Success (address_list status addrinfo)])
                      @ (if owned p then [Delete this] else [])
            \<and> requests (onAresGetAddrInfoCallback this status timeouts addrinfo v) = requests v)
       \<and> (heap v this = Some (Addr p) \<and> callback p = UserCb c \<and> fallback_if_failed p \<and> \<not> completed p
            \<and> status \<noteq> ARES_EDESTRUCTION \<and> address_list status addrinfo = [] \<longrightarrow>
            onAresGetAddrInfoCallback this status timeouts addrinfo v =
              getAddrInfo this AF_INET
                (v\<lparr>heap := (heap v)(this \<mapsto> Addr (p\<lparr>fallback_if_failed := False\<rparr>))\<rparr>)
            \<and> (ares_getaddrinfo_sync v (dns_name p) AF_INET = None \<longrightarrow>
                 onAresGetAddrInfoCallback this status timeouts addrinfo v =
                   v\<lparr>heap := (heap v)(this \<mapsto> Addr (p\<lparr>fallback_if_failed := False\<rparr>)),
                     requests := requests v @ [GetAddrInfoRequest (query_channel p) this],
                     trace := trace v @ [AresGetAddrInfo (query_channel p) (dns_name p) AF_INET]\<rparr>)
            \<and> (ares_getaddrinfo_sync v (dns_name p) AF_INET = Some (status', timeouts', addrinfo')
                  \<and> status' \<noteq> ARES_EDESTRUCTION \<longrightarrow>
                 trace (onAresGetAddrInfoCallback this status timeouts addrinfo v) =
                   trace v @ [AresGetAddrInfo (query_channel p) (dns_name p) AF_INET]
                     @ (if cancelled p then []
                        else [if status' = ARES_SUCCESS
                              then Callback this c Success (address_list status' addrinfo')
                              else Callback this c Failure []])
                     @ (if owned p then [Delete this] else [])
                 \<and> requests (onAresGetAddrInfoCallback this status timeouts addrinfo v) = requests v))
       \<and> (heap v this = Some (Addr p) \<and> callback p = UserCb c \<and> \<not> fallback_if_failed p
            \<and> status \<noteq> ARES_EDESTRUCTION \<longrightarrow>
            trace (onAresGetAddrInfoCallback this status timeouts addrinfo v) =
              trace v @ (if cancelled p then []
                         else [if status = ARES_SUCCESS
                               then Callback this c Success (address_list status addrinfo)
                               else Callback this c Failure []])
                      @ (if owned p then [Delete this] else [])
            \<and> requests (onAresGetAddrInfoCallback this status timeouts addrinfo v) = requests v)
       \<and> (heap v this = Some (Addr p) \<and> callback p = UserCb c \<longrightarrow>
            trace (onAresGetAddrInfoCallback this ARES_EDESTRUCTION timeouts addrinfo v) =
              trace v @ (if cancelled p then [] else [Callback this c Failure []]) @ [Delete this]
            \<and> requests (onAresGetAddrInfoCallback this ARES_EDESTRUCTION timeouts addrinfo v) =
                requests v)"
proof (intro conjI impI)
  have obj: "heap (wc\<lparr>heap := (heap wc)(q \<mapsto> Addr p0), next_object := Suc q\<rparr>) q = Some (Addr p0)"
    by simp
  have res: "resolve name Auto (UserCb c) w =
      preparePendingResolution q
        (getAddrInfo q AF_INET6 (wc\<lparr>heap := (heap wc)(q \<mapsto> Addr p0), next_object := Suc q\<rparr>))"
    by (simp add: resolve_def Let_def wc_def q_def p0_def new_PendingResolution_def)
  {
    assume "ares_getaddrinfo_sync wc name AF_INET6 = None"
    then show "resolve name Auto (UserCb c) w =
        (Some q, issued\<lparr>heap := (heap wc)(q \<mapsto> Addr (p0\<lparr>owned := True\<rparr>)),
                       requests := requests wc @ [GetAddrInfoRequest (channel wc) q]\<rparr>)"
      by (simp add: res getAddrInfo_object [OF obj] preparePendingResolution_def issued_def)
         (simp add: p0_def)
  }
  {
    assume "ares_getaddrinfo_sync wc name AF_INET6 = Some (status, timeouts, addrinfo)"
    then show "resolve name Auto (UserCb c) w =
        preparePendingResolution q (onAresGetAddrInfoCallback q status timeouts addrinfo issued)"
      by (simp add: res getAddrInfo_object [OF obj] issued_def) (simp add: p0_def)
  }
  {
    assume a: "heap v this = Some (Addr p) \<and> callback p = UserCb c \<and> fallback_if_failed p
        \<and> \<not> completed p \<and> status \<noteq> ARES_EDESTRUCTION \<and> address_list status addrinfo \<noteq> []"
    then show "trace (onAresGetAddrInfoCallback this status timeouts addrinfo v) =
        trace v @ (if cancelled p then [] else [Callback this c Success (address_list status addrinfo)])
                @ (if owned p then [Delete this] else [])"
      using callback_final_user_trace [of v this p status addrinfo c timeouts]
        address_list_success [of status addrinfo] by simp
    from a show "requests (onAresGetAddrInfoCallback this status timeouts addrinfo v) = requests v"
      using callback_final_user_requests [of v this p status addrinfo c timeouts] by simp
  }
  {
    assume a: "heap v this = Some (Addr p) \<and> callback p = UserCb c \<and> fallback_if_failed p
        \<and> \<not> completed p \<and> status \<noteq> ARES_EDESTRUCTION \<and> address_list status addrinfo = []"
    define v' where "v' = v\<lparr>heap := (heap v)(this \<mapsto> Addr (p\<lparr>fallback_if_failed := False\<rparr>))\<rparr>"
    have o': "heap v' this = Some (Addr (p\<lparr>fallback_if_failed := False\<rparr>))" by (simp add: v'_def)
    from a show fb: "onAresGetAddrInfoCallback this status timeouts addrinfo v =
        getAddrInfo this AF_INET
          (v\<lparr>heap := (heap v)(this \<mapsto> Addr (p\<lparr>fallback_if_failed := False\<rparr>))\<rparr>)"
      by (simp add: callback_fallback)
    {
      assume "ares_getaddrinfo_sync v (dns_name p) AF_INET = None"
      then show "onAresGetAddrInfoCallback this status timeouts addrinfo v =
          v\<lparr>heap := (heap v)(this \<mapsto> Addr (p\<lparr>fallback_if_failed := False\<rparr>)),
            requests := requests v @ [GetAddrInfoRequest (query_channel p) this],
            trace := trace v @ [AresGetAddrInfo (query_channel p) (dns_name p) AF_INET]\<rparr>"
        using fb getAddrInfo_object [OF o', of AF_INET] by (simp add: v'_def)
    }
    {
      assume s: "ares_getaddrinfo_sync v (dns_name p) AF_INET = Some (status', timeouts', addrinfo')
          \<and> status' \<noteq> ARES_EDESTRUCTION"
      define v1 where "v1 = v'\<lparr>trace := trace v' @ [AresGetAddrInfo (query_channel p) (dns_name p) AF_INET]\<rparr>"
      have o1: "heap v1 this = Some (Addr (p\<lparr>fallback_if_failed := False\<rparr>))"
        by (simp add: v1_def v'_def)
      have eq: "onAresGetAddrInfoCallback this status timeouts addrinfo v =
          onAresGetAddrInfoCallback this status' timeouts' addrinfo' v1"
        using fb s getAddrInfo_object [OF o', of AF_INET] by (simp add: v'_def v1_def)
      show "trace (onAresGetAddrInfoCallback this status timeouts addrinfo v) =
          trace v @ [AresGetAddrInfo (query_channel p) (dns_name p) AF_INET]
            @ (if cancelled p then []
               else [if status' = ARES_SUCCESS
                     then Callback this c Success (address_list status' addrinfo')
                     else Callback this c Failure []])
            @ (if owned p then [Delete this] else [])"
        using callback_final_user_trace [OF o1, of status' addrinfo' c timeouts'] a s
        by (simp add: eq delivered_event) (simp add: v1_def v'_def)
      show "requests (onAresGetAddrInfoCallback this status timeouts addrinfo v) = requests v"
        using callback_final_user_requests [OF o1, of status' addrinfo' c timeouts'] a s
        by (simp add: eq) (simp add: v1_def v'_def)
    }
  }
  {
    assume a: "heap v this = Some (Addr p) \<and> callback p = UserCb c \<and> \<not> fallback_if_failed p
        \<and> status \<noteq> ARES_EDESTRUCTION"
    then show "trace (onAresGetAddrInfoCallback this status timeouts addrinfo v) =
        trace v @ (if cancelled p then []
                   else [if status = ARES_SUCCESS
                         then Callback this c Success (address_list status addrinfo)
                         else Callback this c Failure []])
                @ (if owned p then [Delete this] else [])"
      using callback_final_user_trace [of v this p status addrinfo c timeouts]
      by (simp add: delivered_event)
    from a show "requests (onAresGetAddrInfoCallback this status timeouts addrinfo v) = requests v"
      using callback_final_user_requests [of v this p status addrinfo c timeouts] by simp
  }
  {
    assume a: "heap v this = Some (Addr p) \<and> callback p = UserCb c"
    then show "trace (onAresGetAddrInfoCallback this ARES_EDESTRUCTION timeouts addrinfo v) =
        trace v @ (if cancelled p then [] else [Callback this c Failure []]) @ [Delete this]"
      by (simp add: callback_destruction delete_this_def)
    from a show "requests (onAresGetAddrInfoCallback this ARES_EDESTRUCTION timeouts addrinfo v) =
        requests v"
      by (simp add: callback_destruction delete_this_def)
  }
qed

theorem auto_falls_back_to_v4_once_witness:
  "fst (resolve ''a.example'' Auto (UserCb 7) network_only) = Some 0
   \<and> trace auto_issued = [AresInitOptions 1, AresGetAddrInfo 1 ''a.example'' AF_INET6]
   \<and> trace (ares_answer_getaddrinfo (GetAddrInfoRequest 1 0) ARES_SUCCESS 0 (Some mixed_answer)
               auto_issued) =
       trace auto_issued @
         [Callback 0 7 Success
            [\<lparr>address = Ipv4Instance 4, ttl = 60\<rparr>, \<lparr>address = Ipv4Instance 6, ttl = 300\<rparr>],
          Delete 0]
   \<and> trace (ares_answer_getaddrinfo (GetAddrInfoRequest 1 0) ARES_ENOTFOUND 0 None auto_issued) =
       trace auto_issued @ [AresGetAddrInfo 1 ''a.example'' AF_INET]
   \<and> requests (ares_answer_getaddrinfo (GetAddrInfoRequest 1 0) ARES_ENOTFOUND 0 None auto_issued) =
       [GetAddrInfoRequest 1 0]
   \<and> trace (ares_answer_getaddrinfo (GetAddrInfoRequest 1 0) ARES_SUCCESS 0 (Some mixed_answer)
        (ares_answer_getaddrinfo (GetAddrInfoRequest 1 0) ARES_ENOTFOUND 0 None auto_issued)) =
       trace auto_issued @
         [AresGetAddrInfo 1 ''a.example'' AF_INET,
          Callback 0 7 Success
            [\<lparr>address = Ipv4Instance 4, ttl = 60\<rparr>, \<lparr>address = Ipv4Instance 6, ttl = 300\<rparr>],
          Delete 0]
   \<and> trace (ares_answer_getaddrinfo (GetAddrInfoRequest 1 0) ARES_ECONNREFUSED 0 None
        (ares_answer_getaddrinfo (GetAddrInfoRequest 1 0) ARES_ENOTFOUND 0 None auto_issued)) =
       trace auto_issued @
         [AresGetAddrInfo 1 ''a.example'' AF_INET, Callback 0 7 Failure [], Delete 0]
   \<and> trace (DnsResolverImpl_destructor auto_issued) =
       trace auto_issued @ [AresDestroy 1, Callback 0 7 Failure [], Delete 0]"
proof -
  define v where "v = auto_issued\<lparr>requests := []\<rparr>"
  define v2 where "v2 = v\<lparr>heap := (heap v)(0 \<mapsto> Addr (auto_first_attempt\<lparr>fallback_if_failed := False\<rparr>)),
                         trace := trace v @ [AresGetAddrInfo 1 ''a.example'' AF_INET]\<rparr>"
  have net: "\<not> dirty_channel network_only"
    "ares_getaddrinfo_sync network_only n f = None" "next_object network_only = 0"
    "channel network_only = 1" "trace network_only = [AresInitOptions 1]" "requests network_only = []"
    for n f
    by (simp_all add: network_only_def DnsResolverImpl_def initializeChannel_def)
  have r: "resolve ''a.example'' Auto (UserCb 7) network_only =
      (Some 0, network_only\<lparr>heap := (heap network_only)(0 \<mapsto> Addr auto_first_attempt),
                 next_object := Suc 0,
                 trace := [AresInitOptions 1, AresGetAddrInfo 1 ''a.example'' AF_INET6],
                 requests := [GetAddrInfoRequest 1 0]\<rparr>)"
    using auto_falls_back_to_v4_once [where w = network_only and name = "''a.example''" and c = 7,
            THEN conjunct1]
    by (simp add: net auto_first_attempt_def)
  have issued: "heap auto_issued 0 = Some (Addr auto_first_attempt)"
    "requests auto_issued = [GetAddrInfoRequest 1 0]"
    "trace auto_issued = [AresInitOptions 1, AresGetAddrInfo 1 ''a.example'' AF_INET6]"
    "ares_getaddrinfo_sync auto_issued n f = None" for n f
    by (simp_all add: auto_issued_def r net)
  have v: "heap v 0 = Some (Addr auto_first_attempt)" "trace v = trace auto_issued"
    "requests v = []" "ares_getaddrinfo_sync v n f = None" for n f
    by (simp_all add: v_def issued)
  have a1: "ares_answer_getaddrinfo (GetAddrInfoRequest 1 0) st t ai auto_issued =
      onAresGetAddrInfoCallback 0 st t ai v" for st t ai
    by (simp add: ares_answer_getaddrinfo_def issued v_def)
  have list: "address_list ARES_SUCCESS (Some mixed_answer) =
      [\<lparr>address = Ipv4Instance 4, ttl = 60\<rparr>, \<lparr>address = Ipv4Instance 6, ttl = 300\<rparr>]"
    "address_list ARES_ENOTFOUND None = []"
    by (simp_all add: address_list_def mixed_answer_def ARES_ENOTFOUND_def ARES_SUCCESS_def)
  have st: "ARES_SUCCESS \<noteq> ARES_EDESTRUCTION" "ARES_ENOTFOUND \<noteq> ARES_EDESTRUCTION"
    "ARES_ECONNREFUSED \<noteq> ARES_EDESTRUCTION" "ARES_ECONNREFUSED \<noteq> ARES_SUCCESS"
    by (simp_all add: ARES_SUCCESS_def ARES_ENOTFOUND_def ARES_EDESTRUCTION_def ARES_ECONNREFUSED_def)
  have first_ok: "trace (onAresGetAddrInfoCallback 0 ARES_SUCCESS 0 (Some mixed_answer) v) =
      trace v @ [Callback 0 7 Success
            [\<lparr>address = Ipv4Instance 4, ttl = 60\<rparr>, \<lparr>address = Ipv4Instance 6, ttl = 300\<rparr>],
          Delete 0]"
    using auto_falls_back_to_v4_once [where w = network_only and name = "''a.example''" and c = 7 and
             v = v and this = 0 and p = auto_first_attempt and status = ARES_SUCCESS
               and addrinfo = "Some mixed_answer" and timeouts = 0,
             THEN conjunct2, THEN conjunct2, THEN conjunct1]
    by (simp add: v list st auto_first_attempt_def)
  have hyp: "heap v 0 = Some (Addr auto_first_attempt) \<and> callback auto_first_attempt = UserCb 7
      \<and> fallback_if_failed auto_first_attempt \<and> \<not> completed auto_first_attempt
      \<and> ARES_ENOTFOUND \<noteq> ARES_EDESTRUCTION \<and> address_list ARES_ENOTFOUND None = []"
    by (simp add: v list st) (simp add: auto_first_attempt_def)
  have fb0: "onAresGetAddrInfoCallback 0 ARES_ENOTFOUND 0 None v =
      v\<lparr>heap := (heap v)(0 \<mapsto> Addr (auto_first_attempt\<lparr>fallback_if_failed := False\<rparr>)),
        requests := requests v @ [GetAddrInfoRequest (query_channel auto_first_attempt) 0],
        trace := trace v @ [AresGetAddrInfo (query_channel auto_first_attempt)
                              (dns_name auto_first_attempt) AF_INET]\<rparr>"
    using auto_falls_back_to_v4_once [where w = network_only and name = "''a.example''" and c = 7 and
             v = v and this = 0 and p = auto_first_attempt and status = ARES_ENOTFOUND
               and addrinfo = None and timeouts = 0,
             THEN conjunct2, THEN conjunct2, THEN conjunct2, THEN conjunct1, THEN mp, OF hyp,
             THEN conjunct2, THEN conjunct1, THEN mp, OF v(4)]
    .
  have fb: "onAresGetAddrInfoCallback 0 ARES_ENOTFOUND 0 None v = v2\<lparr>requests := [GetAddrInfoRequest 1 0]\<rparr>"
    unfolding fb0 by (simp add: v2_def v) (simp add: auto_first_attempt_def)
  have undo: "(v2\<lparr>requests := [GetAddrInfoRequest 1 0]\<rparr>)\<lparr>requests := []\<rparr> = v2"
    by (rule state.equality) (simp_all add: v2_def v_def)
  have a2: "ares_answer_getaddrinfo (GetAddrInfoRequest 1 0) st t ai (v2\<lparr>requests := [GetAddrInfoRequest 1 0]\<rparr>) =
      onAresGetAddrInfoCallback 0 st t ai v2" for st t ai
    using undo by (simp add: ares_answer_getaddrinfo_def)
  have v2: "heap v2 0 = Some (Addr (auto_first_attempt\<lparr>fallback_if_failed := False\<rparr>))"
    "trace v2 = trace auto_issued @ [AresGetAddrInfo 1 ''a.example'' AF_INET]"
    by (simp_all add: v2_def v)
  have second: "trace (onAresGetAddrInfoCallback 0 ARES_SUCCESS 0 (Some mixed_answer) v2) =
      trace v2 @ [Callback 0 7 Success
            [\<lparr>address = Ipv4Instance 4, ttl = 60\<rparr>, \<lparr>address = Ipv4Instance 6, ttl = 300\<rparr>],
          Delete 0]"
    using auto_falls_back_to_v4_once [where w = network_only and name = "''a.example''" and c = 7 and
             v = v2 and this = 0 and p = "auto_first_attempt\<lparr>fallback_if_failed := False\<rparr>"
               and status = ARES_SUCCESS and addrinfo = "Some mixed_answer" and timeouts = 0,
             THEN conjunct2, THEN conjunct2, THEN conjunct2, THEN conjunct2, THEN conjunct1]
    by (simp add: v2 list st auto_first_attempt_def)
  have second_failed: "trace (onAresGetAddrInfoCallback 0 ARES_ECONNREFUSED 0 None v2) =
      trace v2 @ [Callback 0 7 Failure [], Delete 0]"
    using auto_falls_back_to_v4_once [where w = network_only and name = "''a.example''" and c = 7 and
             v = v2 and this = 0 and p = "auto_first_attempt\<lparr>fallback_if_failed := False\<rparr>"
               and status = ARES_ECONNREFUSED and addrinfo = None and timeouts = 0,
             THEN conjunct2, THEN conjunct2, THEN conjunct2, THEN conjunct2, THEN conjunct1]
    by (simp add: v2 st auto_first_attempt_def)
  define v3 where "v3 = auto_issued\<lparr>requests := [], trace := trace auto_issued @ [AresDestroy 1]\<rparr>"
  have v3: "heap v3 0 = Some (Addr auto_first_attempt)" "trace v3 = trace auto_issued @ [AresDestroy 1]"
    by (simp_all add: v3_def issued)
  have chan: "channel auto_issued = 1"
    by (simp add: auto_issued_def r net)
  have destroyed: "DnsResolverImpl_destructor auto_issued =
      onAresGetAddrInfoCallback 0 ARES_EDESTRUCTION 0 None v3"
    by (simp add: DnsResolverImpl_destructor_def ares_destroy_def issued chan v3_def)
  have destruction: "trace (onAresGetAddrInfoCallback 0 ARES_EDESTRUCTION 0 None v3) =
      trace v3 @ [Callback 0 7 Failure [], Delete 0]"
    using auto_falls_back_to_v4_once [where w = network_only and name = "''a.example''" and c = 7 and
             v = v3 and this = 0 and p = auto_first_attempt and addrinfo = None and timeouts = 0,
             THEN conjunct2, THEN conjunct2, THEN conjunct2, THEN conjunct2, THEN conjunct2]
    by (simp add: v3 auto_first_attempt_def)
  have e1: "trace (ares_answer_getaddrinfo (GetAddrInfoRequest 1 0) ARES_SUCCESS 0 (Some mixed_answer)
               auto_issued) =
       trace auto_issued @
         [Callback 0 7 Success
            [\<lparr>address = Ipv4Instance 4, ttl = 60\<rparr>, \<lparr>address = Ipv4Instance 6, ttl = 300\<rparr>],
          Delete 0]"
    unfolding a1 first_ok v(2) ..
  have e2: "ares_answer_getaddrinfo (GetAddrInfoRequest 1 0) ARES_ENOTFOUND 0 None auto_issued =
      v2\<lparr>requests := [GetAddrInfoRequest 1 0]\<rparr>"
    unfolding a1 fb ..
  have e3: "trace (ares_answer_getaddrinfo (GetAddrInfoRequest 1 0) ARES_SUCCESS 0 (Some mixed_answer)
        (ares_answer_getaddrinfo (GetAddrInfoRequest 1 0) ARES_ENOTFOUND 0 None auto_issued)) =
       trace v2 @
         [Callback 0 7 Success
            [\<lparr>address = Ipv4Instance 4, ttl = 60\<rparr>, \<lparr>address = Ipv4Instance 6, ttl = 300\<rparr>],
          Delete 0]"
    unfolding e2 a2 second ..
  have e7: "trace (ares_answer_getaddrinfo (GetAddrInfoRequest 1 0) ARES_ECONNREFUSED 0 None
        (ares_answer_getaddrinfo (GetAddrInfoRequest 1 0) ARES_ENOTFOUND 0 None auto_issued)) =
       trace v2 @ [Callback 0 7 Failure [], Delete 0]"
    unfolding e2 a2 second_failed ..
  have e8: "trace (DnsResolverImpl_destructor auto_issued) =
       trace v3 @ [Callback 0 7 Failure [], Delete 0]"
    unfolding destroyed destruction ..
  have e4: "fst (resolve ''a.example'' Auto (UserCb 7) network_only) = Some 0"
    unfolding r by simp
  have e5: "trace (ares_answer_getaddrinfo (GetAddrInfoRequest 1 0) ARES_ENOTFOUND 0 None auto_issued) =
       trace auto_issued @ [AresGetAddrInfo 1 ''a.example'' AF_INET]"
    and e6: "requests (ares_answer_getaddrinfo (GetAddrInfoRequest 1 0) ARES_ENOTFOUND 0 None auto_issued) =
       [GetAddrInfoRequest 1 0]"
    unfolding e2 by (simp_all add: v2)
  show ?thesis
    using e1 e3 e4 e5 e6 e7 e8 issued(3) v2(2) v3(2) by simp
qed

text \<open>
  C6. If \<^verbatim>\<open>cancel()\<close> is called on a query's handle before its callback fires, the
  caller's callback is never invoked afterwards, neither when the underlying request later
  completes (with any status) nor when the engine is destroyed while the query is
  outstanding.

  For every handle \<open>h\<close> that has been handed out and every run after \<open>cancel h\<close>, whatever
  the answers of the library, the new queries, the other cancellations and the
  destructions in it, the trace holds the same callbacks of the query at \<open>h\<close> as before
  the cancellation: none is added.
\<close>

theorem cancelled_query_never_calls_back:
  assumes "h < next_object w"
  shows "filter (callback_of h) (trace (run acts (cancel h w))) = filter (callback_of h) (trace w)"
proof -
  have "keeps_silent h (fold perform acts)"
    by (rule keeps_silent_fold) (rule keeps_silent_perform)
  from keeps_silentD [OF this silenced_cancel [OF assms]]
  have "filter (callback_of h) (trace (run acts (cancel h w))) =
        filter (callback_of h) (trace (cancel h w))"
    by (simp add: run_def)
  also have "trace (cancel h w) = trace w"
    by (simp add: cancel_def split: option.splits)
  finally show ?thesis .
qed

theorem cancelled_query_never_calls_back_witness:
  "0 < next_object auto_issued
   \<and> filter (callback_of 0) (trace (run answers_then_destroy (cancel 0 auto_issued))) = []
   \<and> filter (callback_of 0) (trace (run answers_then_destroy auto_issued)) =
       [Callback 0 7 Success
          [\<lparr>address = Ipv4Instance 4, ttl = 60\<rparr>, \<lparr>address = Ipv4Instance 6, ttl = 300\<rparr>]]
   \<and> filter (callback_of 0) (trace (run [Destroy] (cancel 0 auto_issued))) = []
   \<and> filter (callback_of 0) (trace (run [Destroy] auto_issued)) = [Callback 0 7 Failure []]"
proof -
  have h: "0 < next_object auto_issued" by code_simp
  have before: "filter (callback_of 0) (trace auto_issued) = []" by code_simp
  have uncancelled: "filter (callback_of 0) (trace (run answers_then_destroy auto_issued)) =
       [Callback 0 7 Success
          [\<lparr>address = Ipv4Instance 4, ttl = 60\<rparr>, \<lparr>address = Ipv4Instance 6, ttl = 300\<rparr>]]"
    "filter (callback_of 0) (trace (run [Destroy] auto_issued)) = [Callback 0 7 Failure []]"
    by code_simp+
  show ?thesis
    using cancelled_query_never_calls_back [OF h, of answers_then_destroy]
      cancelled_query_never_calls_back [OF h, of "[Destroy]"] h before uncancelled
    by simp
qed

text \<open>
  C7. On a successful final address resolution, every answer record is translated into
  exactly one ResolvedAddress whose TTL equals that specific record's own TTL, so when
  several records carry differing TTLs each entry keeps its own record's TTL.

  The answers are those to the requests the code issues: \<^verbatim>\<open>getAddrInfo\<close> only ever hints
  \<^verbatim>\<open>AF_INET\<close> or \<^verbatim>\<open>AF_INET6\<close>, so every record of an answer is of the IPv4 or the IPv6
  family. For such an answer with status \<^verbatim>\<open>ARES_SUCCESS\<close> the address list has one entry per
  record, in order, with that record's TTL and built from that record's address; and when
  the resolution is final (no fallback is left, or the answer has a record) this list is
  what the callback of a query that is not cancelled receives, with Success.
\<close>

theorem record_ttl_preserved:
  assumes "\<forall>n \<in> set (nodes a). ai_family n = AF_INET \<or> ai_family n = AF_INET6"
  shows "length (address_list ARES_SUCCESS (Some a)) = length (nodes a)
       \<and> (\<forall>i < length (nodes a).
             ttl (address_list ARES_SUCCESS (Some a) ! i) = ai_ttl (nodes a ! i)
             \<and> (address (address_list ARES_SUCCESS (Some a) ! i) = Ipv4Instance (ai_addr (nodes a ! i))
                \<or> address (address_list ARES_SUCCESS (Some a) ! i) = Ipv6Instance (ai_addr (nodes a ! i))))
       \<and> (heap w this = Some (Addr p) \<and> \<not> cancelled p \<and> callback p = UserCb c
            \<and> (\<not> fallback_if_failed p \<or> nodes a \<noteq> []) \<longrightarrow>
            trace (onAresGetAddrInfoCallback this ARES_SUCCESS timeouts (Some a) w) =
              trace w @ [Callback this c Success (address_list ARES_SUCCESS (Some a))]
                      @ (if owned p then [Delete this] else []))"
proof -
  let ?v4 = "\<lambda>ai. \<lparr>address = Ipv4Instance (ai_addr ai), ttl = ai_ttl ai\<rparr>"
  let ?v6 = "\<lambda>ai. \<lparr>address = Ipv6Instance (ai_addr ai), ttl = ai_ttl ai\<rparr>"
  have shape: "address_list ARES_SUCCESS (Some a) = map ?v4 (nodes a)
             \<or> address_list ARES_SUCCESS (Some a) = map ?v6 (nodes a)"
  proof (cases "nodes a")
    case Nil
    then show ?thesis by (simp add: address_list_def)
  next
    case (Cons n ns)
    with assms have "ai_family n = AF_INET \<or> ai_family n = AF_INET6" by simp
    with Cons show ?thesis by (auto simp: address_list_def)
  qed
  then have len: "length (address_list ARES_SUCCESS (Some a)) = length (nodes a)"
    by auto
  have each: "\<forall>i < length (nodes a).
      ttl (address_list ARES_SUCCESS (Some a) ! i) = ai_ttl (nodes a ! i)
      \<and> (address (address_list ARES_SUCCESS (Some a) ! i) = Ipv4Instance (ai_addr (nodes a ! i))
         \<or> address (address_list ARES_SUCCESS (Some a) ! i) = Ipv6Instance (ai_addr (nodes a ! i)))"
    using shape by auto
  have "trace (onAresGetAddrInfoCallback this ARES_SUCCESS timeouts (Some a) w) =
          trace w @ [Callback this c Success (address_list ARES_SUCCESS (Some a))]
                  @ (if owned p then [Delete this] else [])"
    if q: "heap w this = Some (Addr p)" "\<not> cancelled p" "callback p = UserCb c"
      and fin: "\<not> fallback_if_failed p \<or> nodes a \<noteq> []"
  proof -
    have "\<not> fallback_if_failed p \<or> completed p \<or> address_list ARES_SUCCESS (Some a) \<noteq> []"
      using fin len by auto
    then show ?thesis
      using callback_final_user_trace [of w this p ARES_SUCCESS "Some a" c timeouts] q
      by (simp add: success_not_destruction resolution_status_def)
  qed
  with len each show ?thesis by blast
qed

theorem record_ttl_preserved_witness:
  "length (address_list ARES_SUCCESS (Some mixed_answer)) = 2
   \<and> ttl (address_list ARES_SUCCESS (Some mixed_answer) ! 0) = 60
   \<and> ttl (address_list ARES_SUCCESS (Some mixed_answer) ! 1) = 300
   \<and> trace (onAresGetAddrInfoCallback 0 ARES_SUCCESS 0 (Some mixed_answer) issued_v4) =
       trace issued_v4 @
         [Callback 0 7 Success
            [\<lparr>address = Ipv4Instance 4, ttl = 60\<rparr>, \<lparr>address = Ipv4Instance 6, ttl = 300\<rparr>],
          Delete 0]"
proof -
  have fam: "\<forall>n \<in> set (nodes mixed_answer). ai_family n = AF_INET \<or> ai_family n = AF_INET6"
    by (simp add: mixed_answer_def)
  have nodes: "nodes mixed_answer = [\<lparr>ai_family = AF_INET, ai_addr = 4, ai_ttl = 60\<rparr>,
                 \<lparr>ai_family = AF_INET6, ai_addr = 6, ai_ttl = 300\<rparr>]"
    by (simp add: mixed_answer_def)
  have list: "address_list ARES_SUCCESS (Some mixed_answer) =
      [\<lparr>address = Ipv4Instance 4, ttl = 60\<rparr>, \<lparr>address = Ipv4Instance 6, ttl = 300\<rparr>]"
    by (simp add: address_list_def mixed_answer_def)
  show ?thesis
    using record_ttl_preserved [OF fam, of issued_v4 0
            "\<lparr>owned = True, completed = False, cancelled = False, query_channel = 1,
              dns_name = ''a.example'', fallback_if_failed = False, callback = UserCb 7\<rparr>" 7 0]
          issued_v4_object list
    by (simp add: nodes)
qed

text \<open>
  C8. \<^verbatim>\<open>resolve\<close> and \<^verbatim>\<open>resolveSrv\<close> return a null handle if and only if the request
  completed synchronously without network I/O, in which case the caller's callback has
  already been invoked before the call returns; otherwise they return a non-null
  cancellable handle and the query becomes engine-owned.

  \<^verbatim>\<open>resolveSrv\<close> breaks this when \<^verbatim>\<open>ares_query\<close> fails before it returns: the lookup is
  over and nothing is outstanding in the library, yet \<open>completed\<close> was not set (the empty
  list again), so a handle is returned and no callback has been invoked.
\<close>

theorem resolveSrv_sync_failure_returns_handle:
  "fst (resolveSrv ''svc'' V4Only 7 rejects_names) = Some 0
   \<and> requests (snd (resolveSrv ''svc'' V4Only 7 rejects_names)) = []
   \<and> trace (snd (resolveSrv ''svc'' V4Only 7 rejects_names))
      = [AresInitOptions 1, AresQuery 1 ''svc'']"
  by code_simp

text \<open>
  C9. The validation resolver, for every \<^verbatim>\<open>resolve\<close> call, invokes the callback
  synchronously with status Success and an empty address list and returns a null handle;
  for every \<^verbatim>\<open>resolveSrv\<close> call it invokes the callback synchronously with an empty
  endpoint list and returns a null handle. Neither depends on the name or the family:
  exactly one callback event is appended to the trace, whatever the arguments.
\<close>

theorem validation_resolver_answers_synchronously:
  "ValidationDnsResolver_resolve name family cb tr
     = (None, tr @ [Callback 0 cb Success []])
   \<and> ValidationDnsResolver_resolveSrv name family cb' tr
     = (None, tr @ [SrvCallback 0 cb' []])"
  by (simp add: ValidationDnsResolver_resolve_def ValidationDnsResolver_resolveSrv_def)

text \<open>
  C10. When an address resolution succeeds, the conversion of the answer records is chosen
  by the family of the first record alone: every record of the answer is converted under
  the first record's branch, whatever its own family, and a successful answer whose first
  record is of neither the IPv4 nor the IPv6 family yields status Success with an empty
  address list.
\<close>

theorem first_record_family_selects_conversion:
  assumes "nodes a = n # ns"
  shows "(ai_family n = AF_INET \<longrightarrow>
            address_list ARES_SUCCESS (Some a) =
              map (\<lambda>ai. \<lparr>address = Ipv4Instance (ai_addr ai), ttl = ai_ttl ai\<rparr>) (nodes a))
       \<and> (ai_family n = AF_INET6 \<longrightarrow>
            address_list ARES_SUCCESS (Some a) =
              map (\<lambda>ai. \<lparr>address = Ipv6Instance (ai_addr ai), ttl = ai_ttl ai\<rparr>) (nodes a))
       \<and> (ai_family n \<noteq> AF_INET \<and> ai_family n \<noteq> AF_INET6 \<longrightarrow>
            address_list ARES_SUCCESS (Some a) = []
            \<and> (heap w this = Some (Addr p) \<and> \<not> fallback_if_failed p \<and> \<not> cancelled p
                 \<and> callback p = UserCb c \<longrightarrow>
               trace (onAresGetAddrInfoCallback this ARES_SUCCESS timeouts (Some a) w) =
                 trace w @ [Callback this c Success []] @ (if owned p then [Delete this] else [])))"
proof (intro conjI impI)
  assume "ai_family n = AF_INET"
  with assms show "address_list ARES_SUCCESS (Some a) =
      map (\<lambda>ai. \<lparr>address = Ipv4Instance (ai_addr ai), ttl = ai_ttl ai\<rparr>) (nodes a)"
    by (simp add: address_list_def)
next
  assume "ai_family n = AF_INET6"
  with assms show "address_list ARES_SUCCESS (Some a) =
      map (\<lambda>ai. \<lparr>address = Ipv6Instance (ai_addr ai), ttl = ai_ttl ai\<rparr>) (nodes a)"
    by (simp add: address_list_def AF_INET_def AF_INET6_def)
next
  assume other: "ai_family n \<noteq> AF_INET \<and> ai_family n \<noteq> AF_INET6"
  with assms show empty: "address_list ARES_SUCCESS (Some a) = []"
    by (simp add: address_list_def)
  assume q: "heap w this = Some (Addr p) \<and> \<not> fallback_if_failed p \<and> \<not> cancelled p
               \<and> callback p = UserCb c"
  then show "trace (onAresGetAddrInfoCallback this ARES_SUCCESS timeouts (Some a) w) =
      trace w @ [Callback this c Success []] @ (if owned p then [Delete this] else [])"
    using callback_final_user_trace [of w this p ARES_SUCCESS "Some a" c timeouts] empty
    by (simp add: success_not_destruction resolution_status_def)
qed

theorem first_record_family_selects_conversion_witness:
  "address_list ARES_SUCCESS (Some mixed_answer) =
     [\<lparr>address = Ipv4Instance 4, ttl = 60\<rparr>, \<lparr>address = Ipv4Instance 6, ttl = 300\<rparr>]
   \<and> address_list ARES_SUCCESS (Some foreign_answer) = []
   \<and> trace (onAresGetAddrInfoCallback 0 ARES_SUCCESS 0 (Some foreign_answer) issued_v4) =
       trace issued_v4 @ [Callback 0 7 Success [], Delete 0]"
  using first_record_family_selects_conversion
          [of mixed_answer "\<lparr>ai_family = AF_INET, ai_addr = 4, ai_ttl = 60\<rparr>"
              "[\<lparr>ai_family = AF_INET6, ai_addr = 6, ai_ttl = 300\<rparr>]"]
        first_record_family_selects_conversion
          [of foreign_answer "\<lparr>ai_family = AF_UNIX, ai_addr = 5, ai_ttl = 30\<rparr>" "[]" issued_v4 0
              "\<lparr>owned = True, completed = False, cancelled = False, query_channel = 1,
                dns_name = ''a.example'', fallback_if_failed = False, callback = UserCb 7\<rparr>" 7 0]
        issued_v4_object
  by (simp add: mixed_answer_def foreign_answer_def AF_UNIX_def AF_INET_def AF_INET6_def)

end
